theory Spec2Isabelle
  imports Complex_Main
begin

section \<open>Python values, errors and strings\<close>

text \<open>
  The exceptions the two modules can raise. The \<open>ValueError\<close>s are told apart by the place
  that raises them; the other constructors are the Python exception classes.
\<close>

datatype value_error =
    NotAVector          \<comment> \<open>display.py line 14\<close>
  | NotPowerOfTwo       \<comment> \<open>display.py line 17\<close>
  | QubitsTooLow        \<comment> \<open>circuit.py line 112\<close>
  | EmptyChoice         \<comment> \<open>\<open>rng.choice\<close> on an empty sequence\<close>
  | BareValueError      \<comment> \<open>circuit.py line 136\<close>
  | UnsupportedGate     \<comment> \<open>circuit.py line 182\<close>
  | ShapeMismatch       \<comment> \<open>\<open>np.dot\<close> on operands whose shapes are not aligned\<close>
  | IntOfNaN            \<comment> \<open>\<open>int\<close> of a NaN\<close>

datatype error =
    ValueError value_error
  | OverflowError
  | NameError string
  | IndexError
  | TypeError
  | QiskitError string
  | OtherError string

section \<open>Floating-point numbers\<close>

text \<open>
  A numpy float is \<open>float32\<close> or \<open>float64\<close>. Its value is a rational number, an infinity or
  NaN; the two zeros are one value, since no test of the code tells them apart and no zero
  reaches a printer.
\<close>

datatype precision = Single | Double

datatype fp = Finite rat | PosInf | NegInf | NaN

text \<open>
  The format: the number of bits of the significand, the exponent of the least positive
  value (\<open>2^-149\<close> and \<open>2^-1074\<close>) and the exponent at which a value overflows.
\<close>

fun mantissa :: "precision \<Rightarrow> nat" where
  "mantissa Single = 24"
| "mantissa Double = 53"

fun least_exponent :: "precision \<Rightarrow> nat" where
  "least_exponent Single = 149"
| "least_exponent Double = 1074"

fun overflow_exponent :: "precision \<Rightarrow> nat" where
  "overflow_exponent Single = 128"
| "overflow_exponent Double = 1024"

text \<open>The number of binary digits of a positive integer.\<close>

function bit_length :: "int \<Rightarrow> nat" where
  "bit_length n = (if n \<le> 0 then 0 else Suc (bit_length (n div 2)))"
  by pat_completeness auto
termination
  by (relation "measure nat") auto

declare bit_length.simps [simp del]

text \<open>Rounding to the nearest integer, ties to the even one (\<open>rint\<close>).\<close>

definition rint :: "rat \<Rightarrow> int" where
  "rint x = (let f = \<lfloor>x\<rfloor>; d = x - of_int f
             in if d < 1 / 2 then f else if 1 / 2 < d then f + 1
                else if even f then f else f + 1)"

text \<open>
  The distance between the floats around \<open>x\<close>: with \<open>b\<close> the number of bits of \<open>x\<close> counted in
  units of the least positive value, the last \<open>b - mantissa\<close> bits are rounded away.
\<close>

definition quantum :: "precision \<Rightarrow> rat \<Rightarrow> rat" where
  "quantum P x =
     (let b = bit_length \<lfloor>\<bar>x\<bar> * 2 ^ least_exponent P\<rfloor>
      in (if b \<le> mantissa P then 1 else 2 ^ (b - mantissa P)) / 2 ^ least_exponent P)"

text \<open>The float nearest to a rational number, ties to even; a value beyond the range is infinite.\<close>

definition fp_round :: "precision \<Rightarrow> rat \<Rightarrow> fp" where
  "fp_round P x =
     (let q = quantum P x; r = of_int (rint (x / q)) * q
      in if 2 ^ overflow_exponent P \<le> \<bar>r\<bar> then (if 0 < x then PosInf else NegInf)
         else Finite r)"

fun cast :: "precision \<Rightarrow> fp \<Rightarrow> fp" where
  "cast P (Finite x) = fp_round P x"
| "cast P v = v"

definition signed_inf :: "bool \<Rightarrow> fp" where
  "signed_inf negative = (if negative then NegInf else PosInf)"

fun is_negative :: "fp \<Rightarrow> bool" where
  "is_negative (Finite x) = (x < 0)"
| "is_negative NegInf = True"
| "is_negative v = False"

text \<open>
  Multiplication and division in the precision \<open>P\<close>. The code divides by powers of ten only,
  so the sign of a zero divisor never matters.
\<close>

fun f_mul :: "precision \<Rightarrow> fp \<Rightarrow> fp \<Rightarrow> fp" where
  "f_mul P NaN b = NaN"
| "f_mul P a NaN = NaN"
| "f_mul P (Finite x) (Finite y) = fp_round P (x * y)"
| "f_mul P (Finite x) b = (if x = 0 then NaN else signed_inf ((x < 0) \<noteq> is_negative b))"
| "f_mul P a (Finite y) = (if y = 0 then NaN else signed_inf (is_negative a \<noteq> (y < 0)))"
| "f_mul P a b = signed_inf (is_negative a \<noteq> is_negative b)"

fun f_div :: "precision \<Rightarrow> fp \<Rightarrow> fp \<Rightarrow> fp" where
  "f_div P NaN b = NaN"
| "f_div P a NaN = NaN"
| "f_div P (Finite x) (Finite y) =
     (if y = 0 then (if x = 0 then NaN else signed_inf (x < 0)) else fp_round P (x / y))"
| "f_div P (Finite x) b = Finite 0"
| "f_div P a (Finite y) = signed_inf (is_negative a \<noteq> (y < 0))"
| "f_div P a b = NaN"

fun f_rint :: "fp \<Rightarrow> fp" where
  "f_rint (Finite x) = Finite (of_int (rint x))"
| "f_rint v = v"

fun f_abs :: "fp \<Rightarrow> fp" where
  "f_abs (Finite x) = Finite \<bar>x\<bar>"
| "f_abs NegInf = PosInf"
| "f_abs v = v"

fun f_neg :: "fp \<Rightarrow> fp" where
  "f_neg (Finite x) = Finite (- x)"
| "f_neg PosInf = NegInf"
| "f_neg NegInf = PosInf"
| "f_neg NaN = NaN"

text \<open>The comparison \<open>v >= 0\<close> and the method \<open>is_integer\<close>.\<close>

fun f_ge_zero :: "fp \<Rightarrow> bool" where
  "f_ge_zero (Finite x) = (0 \<le> x)"
| "f_ge_zero PosInf = True"
| "f_ge_zero v = False"

fun is_integer :: "fp \<Rightarrow> bool" where
  "is_integer (Finite x) = (x = of_int \<lfloor>x\<rfloor>)"
| "is_integer v = False"

text \<open>Python's \<open>int(x)\<close> on a finite float truncates towards zero.\<close>

definition py_int :: "rat \<Rightarrow> int" where
  "py_int x = (if 0 \<le> x then \<lfloor>x\<rfloor> else \<lceil>x\<rceil>)"

section \<open>Rounding to decimals\<close>

text \<open>
  \<open>np.round(v, decimals)\<close> on a float of precision \<open>P\<close>. numpy takes the power of ten as a
  double (exact up to \<open>10^8\<close>, then multiplied by 10 in turn), brings it to the precision of
  \<open>v\<close>, multiplies, rounds to the nearest integer and divides, each operation rounding in the
  precision \<open>P\<close> (the promotion rules of numpy 2); for negative decimals it divides first and
  multiplies last, and for zero decimals it only rounds to the nearest integer.
\<close>

definition power_of_ten :: "nat \<Rightarrow> fp" where
  "power_of_ten n =
     (if n < 9 then Finite (10 ^ n)
      else ((\<lambda>r. f_mul Double r (Finite 10)) ^^ (n - 9)) (Finite (10 ^ 9)))"

definition np_round :: "precision \<Rightarrow> fp \<Rightarrow> int \<Rightarrow> fp" where
  "np_round P v decimals =
     (if decimals = 0 then f_rint v
      else let f = cast P (power_of_ten (nat \<bar>decimals\<bar>))
           in if 0 < decimals then f_div P (f_rint (f_mul P v f)) f
              else f_mul P (f_rint (f_div P v f)) f)"

section \<open>Numbers and printers\<close>

text \<open>
  A complex scalar given to the formatting functions is a \<open>complex64\<close> (two \<open>float32\<close>) or a
  \<open>complex128\<close> (a Python \<open>complex\<close>, two doubles), with finite parts.
\<close>

datatype complex_scalar = Complex64 (re: rat) (im: rat) | Complex128 (re: rat) (im: rat)

fun dtype :: "complex_scalar \<Rightarrow> precision" where
  "dtype (Complex64 x y) = Single"
| "dtype (Complex128 x y) = Double"

text \<open>
  The values that flow through the formatting functions: a Python integer, a \<open>float32\<close>, or a
  complex number with its precision and its two parts.
\<close>

datatype pynum = PyInt int | PyFloat fp | PyComplex precision fp fp

text \<open>
  The text of a float that is not an integer and of a complex number is produced by numpy,
  outside the repository: both printers are parameters of every function that calls \<open>str\<close>.
\<close>

record printers =
  str_float :: "fp \<Rightarrow> string"
  str_complex :: "precision \<Rightarrow> fp \<Rightarrow> fp \<Rightarrow> string"

text \<open>
  The closed examples below print Python integers only and never reach the numpy printers;
  they are stated at this pair.
\<close>

definition unused_printers :: printers where
  "unused_printers = \<lparr>str_float = (\<lambda>x. []), str_complex = (\<lambda>P x y. [])\<rparr>"

definition digit_char :: "nat \<Rightarrow> char" where
  "digit_char d = ''0123456789'' ! d"

fun str_nat :: "nat \<Rightarrow> string" where
  "str_nat n = (if n < 10 then [digit_char n] else str_nat (n div 10) @ [digit_char (n mod 10)])"

declare str_nat.simps [simp del]

definition str_int :: "int \<Rightarrow> string" where
  "str_int k = (if k < 0 then CHR ''-'' # str_nat (nat (- k)) else str_nat (nat k))"

definition py_str :: "printers \<Rightarrow> pynum \<Rightarrow> string" where
  "py_str pr v = (case v of PyInt k \<Rightarrow> str_int k
                          | PyFloat x \<Rightarrow> str_float pr x
                          | PyComplex P x y \<Rightarrow> str_complex pr P x y)"

definition startswith :: "string \<Rightarrow> string \<Rightarrow> bool" where
  "startswith s p = (take (length p) s = p)"

fun join :: "string \<Rightarrow> string list \<Rightarrow> string" where
  "join sep [] = []"
| "join sep [x] = x"
| "join sep (x # y # ys) = x @ sep @ join sep (y # ys)"

section \<open>display.py\<close>

text \<open>\<open>_remove_unnecessary_decimals\<close>: line 59 brings the value to \<open>float32\<close> first.\<close>

definition remove_unnecessary_decimals :: "fp \<Rightarrow> pynum" where
  "remove_unnecessary_decimals val =
     (let val = cast Single val
      in case val of
           Finite x \<Rightarrow> if is_integer val then PyInt (py_int x) else PyFloat val
         | _ \<Rightarrow> PyFloat val)"

text \<open>\<open>_remove_null_imag\<close>: \<open>np.round\<close> rounds both parts in the precision of the scalar.\<close>

definition remove_null_imag :: "complex_scalar \<Rightarrow> pynum" where
  "remove_null_imag val =
     (let real = np_round (dtype val) (Finite (re val)) 3;
          imag = np_round (dtype val) (Finite (im val)) 3
      in if imag \<noteq> Finite 0 then PyComplex (dtype val) real imag
         else remove_unnecessary_decimals real)"

text \<open>The attributes \<open>.real\<close> and \<open>.imag\<close>, unary minus and \<open>== 1\<close> on the three number types.\<close>

fun num_real :: "pynum \<Rightarrow> fp" where
  "num_real (PyInt k) = Finite (of_int k)"
| "num_real (PyFloat x) = x"
| "num_real (PyComplex P x y) = x"

fun num_imag :: "pynum \<Rightarrow> fp" where
  "num_imag (PyInt k) = Finite 0"
| "num_imag (PyFloat x) = Finite 0"
| "num_imag (PyComplex P x y) = y"

fun num_neg :: "pynum \<Rightarrow> pynum" where
  "num_neg (PyInt k) = PyInt (- k)"
| "num_neg (PyFloat x) = PyFloat (f_neg x)"
| "num_neg (PyComplex P x y) = PyComplex P (f_neg x) (f_neg y)"

definition num_is_one :: "pynum \<Rightarrow> bool" where
  "num_is_one v = (num_real v = Finite 1 \<and> num_imag v = Finite 0)"

text \<open>
  \<open>with_sign\<close>. In the second branch the real part of \<open>rounded\<close> is zero, so \<open>abs(rounded)\<close>
  is the absolute value of its imaginary part.
\<close>

definition with_sign :: "printers \<Rightarrow> complex_scalar \<Rightarrow> string" where
  "with_sign pr val =
     (let rounded = remove_null_imag val
      in if num_is_one rounded then ''+ ''
         else if num_real rounded = Finite 0 then
           (let sign = (if f_ge_zero (num_imag rounded) then ''+ '' else ''- '');
                rounded = remove_unnecessary_decimals (f_abs (num_imag rounded))
            in sign @ py_str pr rounded @ ''j'')
         else
           (let str_rounded = py_str pr rounded
            in if startswith str_rounded ''-'' \<or> startswith str_rounded ''(-''
               then ''- '' @ py_str pr (num_neg rounded)
               else ''+ '' @ str_rounded))"

text \<open>
  \<open>np.binary_repr(num, width)\<close> for \<open>num \<ge> 0\<close>: the binary digits, padded with zeros on the
  left to \<open>width\<close>; zero is \<open>'0' * (width or 1)\<close>.
\<close>

fun bin_digits :: "nat \<Rightarrow> string" where
  "bin_digits n = (if n < 2 then [digit_char n] else bin_digits (n div 2) @ [digit_char (n mod 2)])"

declare bin_digits.simps [simp del]

definition binary_repr :: "nat \<Rightarrow> nat \<Rightarrow> string" where
  "binary_repr num width =
     (if num = 0 then replicate (if width = 0 then 1 else width) CHR ''0''
      else let binary = bin_digits num
           in replicate (max (length binary) width - length binary) CHR ''0'' @ binary)"

text \<open>
  \<open>int(np.log2(n))\<close> for \<open>n \<ge> 1\<close>. For \<open>n = 0\<close> \<open>np.log2\<close> is \<open>-inf\<close> and \<open>int\<close> raises
  \<open>OverflowError\<close>; the caller models that case.
\<close>

fun ilog2 :: "nat \<Rightarrow> nat" where
  "ilog2 n = (if n < 2 then 0 else Suc (ilog2 (n div 2)))"

declare ilog2.simps [simp del]

text \<open>An array of rank 0, 1 or 2: \<open>len(sv.shape)\<close> is its rank.\<close>

datatype ndarray =
    Scalar complex_scalar
  | Vector "complex_scalar list"
  | Matrix "complex_scalar list list"

fun ndim :: "ndarray \<Rightarrow> nat" where
  "ndim (Scalar z) = 0"
| "ndim (Vector xs) = 1"
| "ndim (Matrix rows) = 2"

text \<open>The closing bracket of a ket, U+27E9, as its three UTF-8 bytes.\<close>

definition rangle :: string where
  "rangle = [char_of (226::nat), char_of (159::nat), char_of (169::nat)]"

text \<open>The test \<open>v.round(3) != 0\<close>.\<close>

definition rounds_to_nonzero :: "complex_scalar \<Rightarrow> bool" where
  "rounds_to_nonzero v =
     (\<not> (np_round (dtype v) (Finite (re v)) 3 = Finite 0
         \<and> np_round (dtype v) (Finite (im v)) 3 = Finite 0))"

definition ket_term :: "printers \<Rightarrow> nat \<Rightarrow> nat \<times> complex_scalar \<Rightarrow> string" where
  "ket_term pr nb_qubits iv =
     with_sign pr (snd iv) @ ''|'' @ binary_repr (fst iv) nb_qubits @ rangle"

definition state_vector_ket_shape :: "printers \<Rightarrow> ndarray \<Rightarrow> error + string" where
  "state_vector_ket_shape pr sv =
     (case sv of
        Vector xs \<Rightarrow>
          if ndim sv \<noteq> 1 then Inl (ValueError NotAVector)
          else if length xs = 0 then Inl OverflowError
          else let nb_qubits = ilog2 (length xs)
               in if 2 ^ nb_qubits \<noteq> length xs then Inl (ValueError NotPowerOfTwo)
                  else Inr (drop 2 (join '' ''
                         (map (ket_term pr nb_qubits)
                            (filter (\<lambda>iv. rounds_to_nonzero (snd iv)) (enumerate 0 xs)))))
      | _ \<Rightarrow> Inl (ValueError NotAVector))"

text \<open>
  \<open>clean_1D_array\<close>. Line 95 converts every element to \<open>complex64\<close>; a part beyond the range
  of \<open>float32\<close> becomes infinite.
\<close>

definition to_complex64 :: "complex_scalar \<Rightarrow> fp \<times> fp" where
  "to_complex64 z = (cast Single (Finite (re z)), cast Single (Finite (im z)))"

text \<open>
  The two parts of an element are numbers until the code replaces them by strings. Lines 101
  and 103 call \<open>int\<close> on the rounded part, which raises \<open>OverflowError\<close> on an infinity and
  \<open>ValueError\<close> on NaN.
\<close>

datatype part = Num pynum | Str string

definition part_str :: "printers \<Rightarrow> part \<Rightarrow> string" where
  "part_str pr p = (case p of Num v \<Rightarrow> py_str pr v | Str s \<Rightarrow> s)"

definition collapse_int :: "fp \<Rightarrow> error + part" where
  "collapse_int v =
     (case v of
        Finite x \<Rightarrow> Inr (if x = of_int (py_int x) then Num (PyInt (py_int x)) else Num (PyFloat v))
      | NaN \<Rightarrow> Inl (ValueError IntOfNaN)
      | _ \<Rightarrow> Inl OverflowError)"

definition part_is_zero :: "part \<Rightarrow> bool" where
  "part_is_zero p =
     (case p of Num v \<Rightarrow> num_real v = Finite 0 \<and> num_imag v = Finite 0 | Str s \<Rightarrow> False)"

text \<open>Lines 106 to 116, on the two parts as lines 101 to 104 leave them.\<close>

definition element_text :: "printers \<Rightarrow> part \<Rightarrow> part \<Rightarrow> string" where
  "element_text pr real_part imag_part =
     (let real_part = (if part_is_zero real_part \<and> \<not> part_is_zero imag_part
                       then Str '''' else real_part);
          imag_part =
            (if part_is_zero imag_part then Str ''''
             else let imag_part = part_str pr imag_part @ ''j''
                  in if real_part \<noteq> Str '''' \<and> \<not> startswith imag_part ''-''
                     then Str (''+'' @ imag_part) else Str imag_part)
      in part_str pr real_part @ part_str pr imag_part)"

definition clean_element :: "printers \<Rightarrow> int \<Rightarrow> fp \<times> fp \<Rightarrow> error + string" where
  "clean_element pr decimals element =
     (let real_part = np_round Single (fst element) decimals;
          imag_part = np_round Single (snd element) decimals
      in case collapse_int real_part of
           Inl e \<Rightarrow> Inl e
         | Inr real_part \<Rightarrow>
             (case collapse_int imag_part of
                Inl e \<Rightarrow> Inl e
              | Inr imag_part \<Rightarrow> Inr (element_text pr real_part imag_part)))"

fun clean_elements :: "printers \<Rightarrow> int \<Rightarrow> (fp \<times> fp) list \<Rightarrow> error + string list" where
  "clean_elements pr decimals [] = Inr []"
| "clean_elements pr decimals (element # rest) =
     (case clean_element pr decimals element of
        Inl e \<Rightarrow> Inl e
      | Inr s \<Rightarrow>
          (case clean_elements pr decimals rest of
             Inl e \<Rightarrow> Inl e
           | Inr cleaned_array \<Rightarrow> Inr (s # cleaned_array)))"

definition clean_1D_array :: "printers \<Rightarrow> complex_scalar list \<Rightarrow> int \<Rightarrow> error + string" where
  "clean_1D_array pr array decimals =
     (let array = map to_complex64 array
      in case clean_elements pr decimals array of
           Inl e \<Rightarrow> Inl e
         | Inr cleaned_array \<Rightarrow> Inr (''['' @ join '', '' cleaned_array @ '']''))"

text \<open>The default value of the parameter \<open>round\<close>.\<close>

definition clean_1D_array_default :: "printers \<Rightarrow> complex_scalar list \<Rightarrow> error + string" where
  "clean_1D_array_default pr array = clean_1D_array pr array 7"

text \<open>
  The text the specification describes for an integer-valued scalar: the sign, a blank and the
  digits, with nothing after them; the value 1 is written as its sign alone and the value 0
  goes through the branch of the imaginary numbers.
\<close>

definition signed_text :: "int \<Rightarrow> string" where
  "signed_text k = (if k < 0 then ''- '' else ''+ '') @ str_nat (nat \<bar>k\<bar>)"

definition real_text :: "int \<Rightarrow> string" where
  "real_text k = (if k = 1 then ''+ '' else if k = 0 then ''+ 0j'' else signed_text k)"

text \<open>
  The element as the specification describes it, from its two rounded parts: a zero imaginary
  part is left out, a zero real part is left out beside a non-zero imaginary part, and a part
  that is an integer is printed as an integer.
\<close>

definition number_text :: "printers \<Rightarrow> rat \<Rightarrow> string" where
  "number_text pr x = (if x = of_int \<lfloor>x\<rfloor> then str_int \<lfloor>x\<rfloor> else str_float pr (Finite x))"

definition rendered_element :: "printers \<Rightarrow> rat \<Rightarrow> rat \<Rightarrow> string" where
  "rendered_element pr x y =
     (if y = 0 then number_text pr x
      else if x = 0 then number_text pr y @ ''j''
      else number_text pr x @ (if startswith (number_text pr y) ''-'' then [] else ''+'')
             @ number_text pr y @ ''j'')"

text \<open>The two parts of an element as lines 95, 98 and 99 leave them.\<close>

definition rounded_parts :: "int \<Rightarrow> complex_scalar \<Rightarrow> fp \<times> fp" where
  "rounded_parts decimals z =
     (np_round Single (fst (to_complex64 z)) decimals,
      np_round Single (snd (to_complex64 z)) decimals)"

fun is_finite :: "fp \<Rightarrow> bool" where
  "is_finite (Finite x) = True"
| "is_finite v = False"

definition finite_parts :: "int \<Rightarrow> complex_scalar \<Rightarrow> bool" where
  "finite_parts decimals z =
     (is_finite (fst (rounded_parts decimals z)) \<and> is_finite (snd (rounded_parts decimals z)))"

definition rendered :: "printers \<Rightarrow> int \<Rightarrow> complex_scalar \<Rightarrow> string" where
  "rendered pr decimals z =
     (case rounded_parts decimals z of
        (Finite x, Finite y) \<Rightarrow> rendered_element pr x y
      | _ \<Rightarrow> [])"

section \<open>Gate classes, gates and circuits\<close>

text \<open>
  The class hierarchy of the gates lives in \<open>mpqp.core\<close>, outside these two files. A gate
  class is modelled by its name and by the answers to the \<open>issubclass\<close> tests that
  \<open>random_circuit\<close> and \<open>compute_expected_matrix\<close> make on it; \<open>==\<close> on classes is equality
  of these records.
\<close>

record gate_class =
  cls_name :: string
  is_single_qubit :: bool   \<comment> \<open>\<open>issubclass(g, SingleQubitGate)\<close>\<close>
  is_parametrized :: bool   \<comment> \<open>\<open>issubclass(g, ParametrizedGate)\<close>\<close>
  is_U :: bool              \<comment> \<open>\<open>issubclass(g, U)\<close>\<close>
  is_Rk :: bool             \<comment> \<open>\<open>issubclass(g, Rk)\<close>\<close>
  is_rotation :: bool       \<comment> \<open>\<open>issubclass(g, RotationGate)\<close>\<close>
  is_TOF :: bool            \<comment> \<open>\<open>issubclass(g, TOF)\<close>\<close>

text \<open>
  The imported classes that the code names, as its assertions and its docstring describe
  them: \<open>TOF\<close> is a multi-qubit gate without parameters, \<open>Rk\<close> and \<open>Rx\<close> are parametrized
  single-qubit rotation gates, \<open>CNOT\<close> is a two-qubit gate without parameters.
\<close>

definition TOF :: gate_class where
  "TOF = \<lparr>cls_name = ''TOF'', is_single_qubit = False, is_parametrized = False,
          is_U = False, is_Rk = False, is_rotation = False, is_TOF = True\<rparr>"

definition Rk :: gate_class where
  "Rk = \<lparr>cls_name = ''Rk'', is_single_qubit = True, is_parametrized = True,
         is_U = False, is_Rk = True, is_rotation = True, is_TOF = False\<rparr>"

definition Rx :: gate_class where
  "Rx = \<lparr>cls_name = ''Rx'', is_single_qubit = True, is_parametrized = True,
         is_U = False, is_Rk = False, is_rotation = True, is_TOF = False\<rparr>"

definition CNOT :: gate_class where
  "CNOT = \<lparr>cls_name = ''CNOT'', is_single_qubit = False, is_parametrized = False,
           is_U = False, is_Rk = False, is_rotation = False, is_TOF = False\<rparr>"

text \<open>
  A gate is the constructor call that made it: its class, the drawn parameters, the control
  qubits and the target qubits. A drawn angle is identified by the raw draw behind it.
\<close>

datatype gate_param = UniformAngle nat | IntParam int

record gate =
  gate_cls :: gate_class
  params :: "gate_param list"
  controls :: "nat list"
  targets :: "nat list"

datatype instruction = GateInstr gate | NonGate string

record QCircuit =
  nb_qubits :: nat
  instructions :: "instruction list"

definition add :: "QCircuit \<Rightarrow> gate \<Rightarrow> QCircuit" where
  "add qcircuit g = qcircuit\<lparr>instructions := instructions qcircuit @ [GateInstr g]\<rparr>"

fun gates_of :: "instruction list \<Rightarrow> gate list" where
  "gates_of [] = []"
| "gates_of (GateInstr g # is) = g # gates_of is"
| "gates_of (NonGate s # is) = gates_of is"

section \<open>The random generator\<close>

text \<open>
  A \<open>numpy.random.Generator\<close> is the stream of its raw draws; every call consumes one draw
  and returns the generator advanced by one. \<open>rng.choice\<close> raises \<open>ValueError\<close> on an empty
  sequence.
\<close>

type_synonym rng = "nat \<Rightarrow> nat"

definition draw :: "rng \<Rightarrow> nat \<times> rng" where
  "draw g = (g 0, \<lambda>i. g (Suc i))"

definition rng_choice :: "'a list \<Rightarrow> rng \<Rightarrow> (error + 'a) \<times> rng" where
  "rng_choice xs g =
     (if xs = [] then (Inl (ValueError EmptyChoice), g)
      else (Inr (xs ! (fst (draw g) mod length xs)), snd (draw g)))"

definition rng_integers :: "int \<Rightarrow> int \<Rightarrow> rng \<Rightarrow> int \<times> rng" where
  "rng_integers low high g = (low + int (fst (draw g) mod nat (high - low)), snd (draw g))"

definition rng_uniform :: "rng \<Rightarrow> gate_param \<times> rng" where
  "rng_uniform g = (UniformAngle (fst (draw g)), snd (draw g))"

section \<open>circuit.py: random\_circuit\<close>

definition qubits_too_low :: "gate_class \<Rightarrow> nat \<Rightarrow> bool" where
  "qubits_too_low g n = (\<not> is_single_qubit g \<and> ((g = TOF \<and> n \<le> 2) \<or> n \<le> 1))"

text \<open>
  One turn of the loop. The name \<open>TYPE_CHECKING\<close> is read on lines 131 and 142 and is not
  imported by the module (line 1 imports \<open>Optional\<close> and \<open>Union\<close> only), so reading it raises
  \<open>NameError\<close>. The gate constructors and \<open>qcircuit.add\<close> are taken to succeed.
\<close>

definition add_random_gate ::
  "gate_class list \<Rightarrow> nat list \<Rightarrow> QCircuit \<Rightarrow> rng \<Rightarrow> (error + QCircuit) \<times> rng" where
  "add_random_gate gate_classes qubits qcircuit g0 =
     (case rng_choice gate_classes g0 of
        (Inl e, g1) \<Rightarrow> (Inl e, g1)
      | (Inr gate_class, g1) \<Rightarrow>
     (case rng_choice qubits g1 of
        (Inl e, g2) \<Rightarrow> (Inl e, g2)
      | (Inr target, g2) \<Rightarrow>
        if is_single_qubit gate_class then
          if is_parametrized gate_class then
            if is_U gate_class then
              (case rng_uniform g2 of (a, g3) \<Rightarrow>
               case rng_uniform g3 of (b, g4) \<Rightarrow>
               case rng_uniform g4 of (c, g5) \<Rightarrow>
                 (Inr (add qcircuit \<lparr>gate_cls = gate_class, params = [a, b, c],
                                     controls = [], targets = [target]\<rparr>), g5))
            else if is_Rk gate_class then
              (case rng_integers 1 10 g2 of (k, g3) \<Rightarrow>
                 (Inr (add qcircuit \<lparr>gate_cls = Rk, params = [IntParam k],
                                     controls = [], targets = [target]\<rparr>), g3))
            else if is_rotation gate_class then
              (Inl (NameError ''TYPE_CHECKING''), g2)
            else
              (case rng_uniform g2 of (a, g3) \<Rightarrow> (Inl (ValueError BareValueError), g3))
          else
            (Inr (add qcircuit \<lparr>gate_cls = gate_class, params = [],
                                controls = [], targets = [target]\<rparr>), g2)
        else
          (case rng_choice (filter (\<lambda>q. q \<noteq> target) qubits) g2 of
             (Inl e, g3) \<Rightarrow> (Inl e, g3)
           | (Inr control, g3) \<Rightarrow>
             if is_parametrized gate_class then
               (Inl (NameError ''TYPE_CHECKING''), g3)
             else if is_TOF gate_class then
               (case rng_choice (filter (\<lambda>q. q \<noteq> target \<and> q \<noteq> control) qubits) g3 of
                  (Inl e, g4) \<Rightarrow> (Inl e, g4)
                | (Inr control2, g4) \<Rightarrow>
                    (Inr (add qcircuit \<lparr>gate_cls = TOF, params = [],
                                        controls = [control, control2], targets = [target]\<rparr>), g4))
             else
               (Inr (add qcircuit \<lparr>gate_cls = gate_class, params = [],
                                   controls = [control], targets = [target]\<rparr>), g3))))"

text \<open>The loop \<open>for _ in range(nb_gates)\<close>: an exception ends it and discards the circuit.\<close>

fun generate ::
  "nat \<Rightarrow> gate_class list \<Rightarrow> nat list \<Rightarrow> QCircuit \<Rightarrow> rng \<Rightarrow> (error + QCircuit) \<times> rng" where
  "generate 0 gate_classes qubits qcircuit g = (Inr qcircuit, g)"
| "generate (Suc k) gate_classes qubits qcircuit g =
     (case add_random_gate gate_classes qubits qcircuit g of
        (Inl e, g') \<Rightarrow> (Inl e, g')
      | (Inr qcircuit', g') \<Rightarrow> generate k gate_classes qubits qcircuit' g')"

text \<open>
  \<open>random_circuit\<close>. The generator \<open>g\<close> is the one that lines 91 to 96 make from \<open>seed\<close>;
  \<open>NATIVE_GATES\<close>, defined outside these files, is a parameter, and \<open>nbq\<close> is the argument
  \<open>nb_qubits\<close>. The result is paired with the generator as the call leaves it.
\<close>

definition random_circuit ::
  "gate_class list \<Rightarrow> gate_class list option \<Rightarrow> nat \<Rightarrow> int option \<Rightarrow> rng
     \<Rightarrow> (error + QCircuit) \<times> rng" where
  "random_circuit NATIVE_GATES gate_classes nbq nb_gates g =
     (let gate_classes = (case gate_classes of None \<Rightarrow> NATIVE_GATES | Some cs \<Rightarrow> cs);
          (nb_gates, g) = (case nb_gates of None \<Rightarrow> rng_integers 5 10 g | Some n \<Rightarrow> (n, g));
          qubits = [0..<nbq];
          qcircuit = \<lparr>nb_qubits = nbq, instructions = []\<rparr>
      in if list_ex (\<lambda>gate. qubits_too_low gate nbq) gate_classes
         then (Inl (ValueError QubitsTooLow), g)
         else generate (nat nb_gates) gate_classes qubits qcircuit g)"

text \<open>A generator whose draws are all 0, for the closed examples.\<close>

definition zero_rng :: rng where
  "zero_rng = (\<lambda>i. 0)"

text \<open>
  What the specification asks of a produced gate: targets and controls are qubits of the
  circuit, and no control is a target.
\<close>

definition gate_within :: "nat \<Rightarrow> gate \<Rightarrow> bool" where
  "gate_within n g =
     (list_all (\<lambda>q. q < n) (targets g) \<and> list_all (\<lambda>q. q < n) (controls g)
      \<and> list_all (\<lambda>q. q \<notin> set (targets g)) (controls g))"

text \<open>
  The classes on which a turn of the loop reaches a call of \<open>qcircuit.add\<close> and returns from
  it: a single-qubit class that is not parametrized or is a \<open>U\<close> or an \<open>Rk\<close>, on at least one
  qubit; a multi-qubit class that is not parametrized, on at least two qubits, three for a
  \<open>TOF\<close>.
\<close>

definition generable :: "gate_class \<Rightarrow> nat \<Rightarrow> bool" where
  "generable c n =
     (if is_single_qubit c then 1 \<le> n \<and> (\<not> is_parametrized c \<or> is_U c \<or> is_Rk c)
      else \<not> is_parametrized c \<and> 2 \<le> n \<and> (is_TOF c \<longrightarrow> 3 \<le> n))"

section \<open>Matrices\<close>

text \<open>
  A two-dimensional numpy array of complex numbers is the list of its rows. \<open>np.eye\<close>,
  \<open>np.kron\<close> and \<open>np.dot\<close> are numpy's; \<open>np.dot\<close> raises \<open>ValueError\<close> when the number of
  columns of its first operand is not the number of rows of its second.
\<close>

type_synonym matrix = "complex list list"

definition eye :: "nat \<Rightarrow> matrix" where
  "eye n = map (\<lambda>i. map (\<lambda>j. if i = j then 1 else 0) [0..<n]) [0..<n]"

fun kron_row :: "complex list \<Rightarrow> complex list \<Rightarrow> complex list" where
  "kron_row [] brow = []"
| "kron_row (a # arow) brow = map (\<lambda>b. a * b) brow @ kron_row arow brow"

fun kron :: "matrix \<Rightarrow> matrix \<Rightarrow> matrix" where
  "kron [] B = []"
| "kron (arow # A) B = map (kron_row arow) B @ kron A B"

definition ncols :: "matrix \<Rightarrow> nat" where
  "ncols A = (case A of [] \<Rightarrow> 0 | row # _ \<Rightarrow> length row)"

definition column :: "matrix \<Rightarrow> nat \<Rightarrow> complex list" where
  "column B j = map (\<lambda>row. row ! j) B"

definition matmul :: "matrix \<Rightarrow> matrix \<Rightarrow> matrix" where
  "matmul A B =
     map (\<lambda>row. map (\<lambda>j. sum_list (map2 (\<lambda>a b. a * b) row (column B j))) [0..<ncols B]) A"

definition dot :: "matrix \<Rightarrow> matrix \<Rightarrow> error + matrix" where
  "dot A B = (if ncols A \<noteq> length B then Inl (ValueError ShapeMismatch) else Inr (matmul A B))"

section \<open>circuit.py: compute\_expected\_matrix\<close>

text \<open>
  \<open>gate.to_matrix()\<close> belongs to the gate classes and is a parameter. The loop runs over the
  gates in reverse; a gate without target raises \<open>IndexError\<close> at \<open>gate.targets[0]\<close>, and a
  target that is not below \<open>nb_qubits\<close> makes \<open>2 ** (nb_qubits - index - 1)\<close> a float, which
  \<open>np.eye\<close> refuses with \<open>TypeError\<close>. The final \<open>np.vectorize(N)(...).astype(complex)\<close>
  leaves a matrix of complex numbers as it is.
\<close>

definition expand :: "(gate \<Rightarrow> matrix) \<Rightarrow> nat \<Rightarrow> gate \<Rightarrow> nat \<Rightarrow> matrix" where
  "expand to_matrix n gate index =
     kron (eye (2 ^ index)) (kron (to_matrix gate) (eye (2 ^ (n - index - 1))))"

fun apply_gates :: "(gate \<Rightarrow> matrix) \<Rightarrow> nat \<Rightarrow> gate list \<Rightarrow> matrix \<Rightarrow> error + matrix" where
  "apply_gates to_matrix n [] result_matrix = Inr result_matrix"
| "apply_gates to_matrix n (gate # gs) result_matrix =
     (if \<not> is_single_qubit (gate_cls gate) then Inl (ValueError UnsupportedGate)
      else case targets gate of
             [] \<Rightarrow> Inl IndexError
           | index # _ \<Rightarrow>
               if n < index + 1 then Inl TypeError
               else (case dot result_matrix (expand to_matrix n gate index) of
                       Inl e \<Rightarrow> Inl e
                     | Inr result_matrix' \<Rightarrow> apply_gates to_matrix n gs result_matrix'))"

definition compute_expected_matrix :: "(gate \<Rightarrow> matrix) \<Rightarrow> QCircuit \<Rightarrow> error + matrix" where
  "compute_expected_matrix to_matrix qcircuit =
     (let gates = gates_of (instructions qcircuit);
          n = nb_qubits qcircuit;
          result_matrix = eye (2 ^ n)
      in apply_gates to_matrix n (rev gates) result_matrix)"

text \<open>
  The circuits that \<open>QCircuit\<close> and the gate classes admit: a single-qubit gate has a target,
  the target is a qubit of the circuit, and its matrix is 2 by 2.
\<close>

definition mat_ok :: "nat \<Rightarrow> nat \<Rightarrow> matrix \<Rightarrow> bool" where
  "mat_ok r c A = (length A = r \<and> list_all (\<lambda>row. length row = c) A)"

definition gate_ok :: "(gate \<Rightarrow> matrix) \<Rightarrow> nat \<Rightarrow> gate \<Rightarrow> bool" where
  "gate_ok to_matrix n gate =
     (is_single_qubit (gate_cls gate) \<longrightarrow>
        (case targets gate of [] \<Rightarrow> False | index # _ \<Rightarrow> index < n) \<and> mat_ok 2 2 (to_matrix gate))"

definition circuit_ok :: "(gate \<Rightarrow> matrix) \<Rightarrow> QCircuit \<Rightarrow> bool" where
  "circuit_ok to_matrix qcircuit =
     list_all (gate_ok to_matrix (nb_qubits qcircuit)) (gates_of (instructions qcircuit))"

text \<open>
  The matrix the specification describes: the product, in reverse instruction order, of the
  gates' matrices, each expanded to the width of the circuit as
  \<open>I\<^bsub>2^t\<^esub> \<otimes> G \<otimes> I\<^bsub>2^(n-t-1)\<^esub>\<close> with \<open>t\<close> the target of the gate. The product of no matrix
  is the identity, and the last instruction is the leftmost factor.
\<close>

fun reverse_product :: "(gate \<Rightarrow> matrix) \<Rightarrow> nat \<Rightarrow> gate list \<Rightarrow> matrix" where
  "reverse_product to_matrix n [] = eye (2 ^ n)"
| "reverse_product to_matrix n (gate # gs) =
     matmul (reverse_product to_matrix n gs) (expand to_matrix n gate (hd (targets gate)))"

text \<open>What a turn of the loop does to the result on a gate that passes its checks.\<close>

definition step :: "(gate \<Rightarrow> matrix) \<Rightarrow> nat \<Rightarrow> matrix \<Rightarrow> gate \<Rightarrow> matrix" where
  "step to_matrix n R gate = matmul R (expand to_matrix n gate (hd (targets gate)))"

text \<open>
  For the closed examples: a \<open>to_matrix\<close> that gives every gate the matrix of the Pauli X
  gate, a rotation gate on qubit 0 and a \<open>CNOT\<close> from qubit 0 to qubit 1.
\<close>

definition x_matrix :: "gate \<Rightarrow> matrix" where
  "x_matrix gate = [[0, 1], [1, 0]]"

definition rx_on_0 :: gate where
  "rx_on_0 = \<lparr>gate_cls = Rx, params = [UniformAngle 0], controls = [], targets = [0]\<rparr>"

definition cnot_0_1 :: gate where
  "cnot_0_1 = \<lparr>gate_cls = CNOT, params = [], controls = [0], targets = [1]\<rparr>"

text \<open>
  A second \<open>to_matrix\<close>, which gives an \<open>Rk\<close> gate the matrix of the Pauli Z gate and every
  other gate that of X, and a circuit over two qubits: X on qubit 0, a barrier, Z on qubit 0,
  X on qubit 1.
\<close>

definition xz_matrix :: "gate \<Rightarrow> matrix" where
  "xz_matrix gate = (if gate_cls gate = Rk then [[1, 0], [0, - 1]] else [[0, 1], [1, 0]])"

definition rk_on_0 :: gate where
  "rk_on_0 = \<lparr>gate_cls = Rk, params = [IntParam 1], controls = [], targets = [0]\<rparr>"

definition rx_on_1 :: gate where
  "rx_on_1 = \<lparr>gate_cls = Rx, params = [UniformAngle 0], controls = [], targets = [1]\<rparr>"

definition two_qubit_circuit :: QCircuit where
  "two_qubit_circuit =
     \<lparr>nb_qubits = 2,
      instructions = [GateInstr rx_on_0, NonGate ''barrier'', GateInstr rk_on_0, GateInstr rx_on_1]\<rparr>"

section \<open>circuit.py: replace\_custom\_gate\<close>

text \<open>
  The qiskit side. An operation is an object on the heap, holding its list of parameters; a
  \<open>CircuitInstruction\<close> refers to its operation, and \<open>QuantumCircuit.append\<close> stores the
  instruction, so the circuit sees a later change of the operation's parameters.
  \<open>transpile\<close> and \<open>closest_unitary\<close> are parameters: the first is qiskit's, the second is
  defined in \<open>mpqp.tools.maths\<close>, outside these files.
\<close>

type_synonym heap = "nat \<Rightarrow> matrix list"

record CircuitInstruction =
  operation :: nat
  qubits :: "nat list"

record QuantumCircuit =
  num_qubits :: nat
  data :: "CircuitInstruction list"
  global_phase :: real

definition new_QuantumCircuit :: "nat \<Rightarrow> QuantumCircuit" where
  "new_QuantumCircuit n = \<lparr>num_qubits = n, data = [], global_phase = 0\<rparr>"

definition append_instruction :: "QuantumCircuit \<Rightarrow> CircuitInstruction \<Rightarrow> QuantumCircuit" where
  "append_instruction qc instr = qc\<lparr>data := data qc @ [instr]\<rparr>"

fun contains :: "string \<Rightarrow> string \<Rightarrow> bool" where
  "contains [] p = (p = [])"
| "contains (c # s) p = (startswith (c # s) p \<or> contains s p)"

text \<open>
  The result of a call: what it returns or raises, the heap as it leaves it, and the number of
  calls of \<open>transpile\<close> it made.
\<close>

record outcome =
  returned :: "error + QuantumCircuit \<times> real"
  final_heap :: heap
  transpile_calls :: nat

definition replace_custom_gate ::
  "(heap \<Rightarrow> QuantumCircuit \<Rightarrow> error + QuantumCircuit) \<Rightarrow> (matrix \<Rightarrow> matrix)
     \<Rightarrow> heap \<Rightarrow> CircuitInstruction \<Rightarrow> nat \<Rightarrow> outcome" where
  "replace_custom_gate transpile closest_unitary h custom_unitary nbq =
     (let transpilation_circuit = append_instruction (new_QuantumCircuit nbq) custom_unitary
      in case transpile h transpilation_circuit of
           Inr transpiled \<Rightarrow>
             \<lparr>returned = Inr (transpiled, global_phase transpiled), final_heap = h,
              transpile_calls = 1\<rparr>
         | Inl (QiskitError e) \<Rightarrow>
             if contains e ''TwoQubitWeylDecomposition'' then
               (case h (operation custom_unitary) of
                  [] \<Rightarrow> \<lparr>returned = Inl IndexError, final_heap = h, transpile_calls = 1\<rparr>
                | p # ps \<Rightarrow>
                    let h' = h(operation custom_unitary := closest_unitary p # ps)
                    in (case transpile h' transpilation_circuit of
                          Inr transpiled \<Rightarrow>
                            \<lparr>returned = Inr (transpiled, global_phase transpiled),
                             final_heap = h', transpile_calls = 2\<rparr>
                        | Inl e' \<Rightarrow>
                            \<lparr>returned = Inl e', final_heap = h', transpile_calls = 2\<rparr>))
             else \<lparr>returned = Inl (QiskitError e), final_heap = h, transpile_calls = 1\<rparr>
         | Inl e \<Rightarrow> \<lparr>returned = Inl e, final_heap = h, transpile_calls = 1\<rparr>)"

text \<open>
  For the closed example: a transpiler that accepts a circuit whose operands are all the 1 by 1
  identity and fails on any other with the error of the two-qubit decomposition, a
  \<open>closest_unitary\<close> that returns that identity, a heap whose operations all hold the matrix
  \<open>[[2]]\<close>, and an instruction on qubit 0.
\<close>

definition stub_transpile :: "heap \<Rightarrow> QuantumCircuit \<Rightarrow> error + QuantumCircuit" where
  "stub_transpile h qc =
     (if list_all (\<lambda>i. h (operation i) = [[[1]]]) (data qc) then Inr qc
      else Inl (QiskitError ''TwoQubitWeylDecomposition failed''))"

definition stub_closest_unitary :: "matrix \<Rightarrow> matrix" where
  "stub_closest_unitary m = [[1]]"

definition stub_heap :: heap where
  "stub_heap = (\<lambda>a. [[[2]]])"

definition stub_instruction :: CircuitInstruction where
  "stub_instruction = \<lparr>operation = 0, qubits = [0]\<rparr>"

section \<open>Properties of the floating-point model\<close>

lemma bit_length_le: "n < 2 ^ k \<Longrightarrow> bit_length n \<le> k"
proof (induction k arbitrary: n)
  case 0
  then show ?case by (simp add: bit_length.simps)
next
  case (Suc k)
  show ?case
  proof (cases "n \<le> 0")
    case True
    then show ?thesis by (simp add: bit_length.simps)
  next
    case False
    have "n div 2 < 2 ^ k" using Suc.prems by simp
    then have "bit_length (n div 2) \<le> k" by (rule Suc.IH)
    then show ?thesis using False by (subst bit_length.simps) simp
  qed
qed

lemma bit_length_lower: "bit_length n = Suc k \<Longrightarrow> 2 ^ k \<le> n"
proof (induction k arbitrary: n)
  case 0
  then show ?case by (subst (asm) bit_length.simps) (simp split: if_splits)
next
  case (Suc k)
  from Suc.prems have pos: "0 < n" and "bit_length (n div 2) = Suc k"
    by (subst (asm) bit_length.simps, simp split: if_splits)+
  then have "2 ^ k \<le> n div 2" using Suc.IH by blast
  then show ?case by simp
qed

lemma rint_of_int: "rint (of_int k) = k"
  by (simp add: rint_def)

lemma rint_between: "rint z = \<lfloor>z\<rfloor> \<or> rint z = \<lceil>z\<rceil>"
proof -
  have "1 / 2 \<le> z - of_int \<lfloor>z\<rfloor> \<Longrightarrow> \<lceil>z\<rceil> = \<lfloor>z\<rfloor> + 1"
    by (simp add: ceiling_altdef)
  then show ?thesis by (auto simp: rint_def Let_def)
qed

lemma rint_abs_le: "\<bar>z\<bar> \<le> of_int M \<Longrightarrow> \<bar>rint z\<bar> \<le> M"
proof -
  assume a: "\<bar>z\<bar> \<le> of_int M"
  then have "- of_int M \<le> z" "z \<le> of_int M" by linarith+
  then have "- M \<le> \<lfloor>z\<rfloor>" "\<lceil>z\<rceil> \<le> M"
    by (simp_all add: le_floor_iff ceiling_le_iff)
  moreover have "\<lfloor>z\<rfloor> \<le> \<lceil>z\<rceil>" by (rule floor_le_ceiling)
  ultimately show ?thesis using rint_between [of z] by linarith
qed

lemma rint_error: "\<bar>of_int (rint z) - z\<bar> \<le> 1 / 2"
proof -
  have "of_int \<lfloor>z\<rfloor> \<le> z" "z < of_int \<lfloor>z\<rfloor> + 1" by linarith+
  then show ?thesis by (auto simp: rint_def Let_def)
qed

lemma quantum_pos: "0 < quantum P x"
  by (simp add: quantum_def Let_def)

lemma fp_round_exact:
  assumes "x / quantum P x = of_int m" and "\<bar>x\<bar> < 2 ^ overflow_exponent P"
  shows "fp_round P x = Finite x"
proof -
  have q: "0 < quantum P x" by (rule quantum_pos)
  have r: "rint (x / quantum P x) = m" using assms(1) by (simp add: rint_of_int)
  have "x = of_int m * quantum P x" using assms(1) q by (simp add: field_simps)
  then have "of_int (rint (x / quantum P x)) * quantum P x = x" using r by simp
  then show ?thesis using assms(2) by (simp add: fp_round_def Let_def)
qed

lemma mantissa_le_overflow: "mantissa P \<le> overflow_exponent P"
  by (cases P) simp_all

lemma mantissa_le_least: "mantissa P \<le> least_exponent P"
  by (cases P) simp_all

lemma quantum_int:
  assumes "\<bar>j\<bar> < 2 ^ mantissa P"
  shows "\<exists>m. of_int j / quantum P (of_int j) = of_int m"
proof -
  let ?s = "least_exponent P" and ?p = "mantissa P"
  let ?n = "\<lfloor>\<bar>rat_of_int j\<bar> * 2 ^ ?s\<rfloor>"
  have n: "?n = \<bar>j\<bar> * 2 ^ ?s"
  proof -
    have "\<bar>rat_of_int j\<bar> * 2 ^ ?s = of_int (\<bar>j\<bar> * 2 ^ ?s)" by simp
    then show ?thesis by (metis floor_of_int)
  qed
  have "\<bar>j\<bar> * 2 ^ ?s < 2 ^ ?p * 2 ^ ?s" using assms by simp
  then have "?n < 2 ^ (?p + ?s)" using n by (simp add: power_add)
  then have b: "bit_length ?n \<le> ?p + ?s" by (rule bit_length_le)
  show ?thesis
  proof (cases "bit_length ?n \<le> ?p")
    case True
    then have "quantum P (of_int j) = 1 / 2 ^ ?s" by (simp add: quantum_def Let_def)
    then have "of_int j / quantum P (of_int j) = of_int (j * 2 ^ ?s)" by simp
    then show ?thesis by blast
  next
    case False
    let ?t = "bit_length ?n - ?p"
    have t: "?t \<le> ?s" using b by simp
    have "quantum P (of_int j) = 2 ^ ?t / 2 ^ ?s" using False by (simp add: quantum_def Let_def)
    then have "of_int j / quantum P (of_int j) = of_int j * ((2::rat) ^ ?s / 2 ^ ?t)" by simp
    also have "(2::rat) ^ ?s / 2 ^ ?t = 2 ^ (?s - ?t)" using t by (simp add: power_diff)
    finally have "of_int j / quantum P (of_int j) = of_int (j * 2 ^ (?s - ?t))" by simp
    then show ?thesis by blast
  qed
qed

lemma fp_round_int:
  assumes "\<bar>j\<bar> < 2 ^ mantissa P"
  shows "fp_round P (of_int j) = Finite (of_int j)"
proof -
  obtain m where m: "of_int j / quantum P (of_int j) = rat_of_int m"
    using quantum_int [OF assms] by blast
  have "(2::int) ^ mantissa P \<le> 2 ^ overflow_exponent P"
    using mantissa_le_overflow by (simp add: power_increasing)
  then have "\<bar>j\<bar> < 2 ^ overflow_exponent P" using assms by linarith
  then have "\<bar>rat_of_int j\<bar> < 2 ^ overflow_exponent P"
    by (metis of_int_abs of_int_less_numeral_power_cancel_iff)
  with m show ?thesis by (rule fp_round_exact)
qed

lemma fp_round_numeral:
  "\<bar>numeral k :: int\<bar> < 2 ^ mantissa P \<Longrightarrow> fp_round P (numeral k) = Finite (numeral k)"
  using fp_round_int [of "numeral k" P] by simp

lemma fp_round_error:
  assumes "fp_round P z = Finite y"
  shows "\<bar>y - z\<bar> \<le> \<bar>z\<bar> / 2 ^ mantissa P + 1 / 2 ^ Suc (least_exponent P)"
proof -
  let ?s = "least_exponent P" and ?p = "mantissa P"
  let ?n = "\<lfloor>\<bar>z\<bar> * 2 ^ ?s\<rfloor>"
  let ?q = "quantum P z"
  have q: "0 < ?q" by (rule quantum_pos)
  have y: "y = of_int (rint (z / ?q)) * ?q"
    using assms by (simp add: fp_round_def Let_def split: if_splits)
  have "y - z = (of_int (rint (z / ?q)) - z / ?q) * ?q" using y q by (simp add: field_simps)
  then have "\<bar>y - z\<bar> = \<bar>of_int (rint (z / ?q)) - z / ?q\<bar> * ?q"
    using q by (simp add: abs_mult)
  also have "\<dots> \<le> 1 / 2 * ?q"
    using rint_error [of "z / ?q"] q by (intro mult_right_mono) simp_all
  finally have half: "\<bar>y - z\<bar> \<le> ?q / 2" by simp
  have "?q \<le> 2 * \<bar>z\<bar> / 2 ^ ?p + 1 / 2 ^ ?s"
  proof (cases "bit_length ?n \<le> ?p")
    case True
    then have "?q = 1 / 2 ^ ?s" by (simp add: quantum_def Let_def)
    moreover have "0 \<le> 2 * \<bar>z\<bar> / 2 ^ ?p" by simp
    ultimately show ?thesis by linarith
  next
    case False
    then obtain k where k: "bit_length ?n = Suc k" by (cases "bit_length ?n") simp_all
    then have "2 ^ k \<le> ?n" by (rule bit_length_lower)
    then have "rat_of_int (2 ^ k) \<le> of_int ?n" by (simp only: of_int_le_iff)
    also have "\<dots> \<le> \<bar>z\<bar> * 2 ^ ?s" by (rule of_int_floor_le)
    finally have lower: "2 ^ k \<le> \<bar>z\<bar> * 2 ^ ?s" by simp
    have pk: "?p \<le> k" using False k by simp
    have qeq: "?q = 2 ^ (Suc k - ?p) / 2 ^ ?s" using False k by (simp add: quantum_def Let_def)
    have "(2::rat) ^ (Suc k - ?p) = 2 * 2 ^ k / 2 ^ ?p"
      using pk by (simp add: power_diff Suc_diff_le)
    then have "?q = 2 * 2 ^ k / 2 ^ ?p / 2 ^ ?s" using qeq by simp
    also have "\<dots> \<le> 2 * (\<bar>z\<bar> * 2 ^ ?s) / 2 ^ ?p / 2 ^ ?s"
      using lower by (intro divide_right_mono mult_left_mono) simp_all
    also have "\<dots> = 2 * \<bar>z\<bar> / 2 ^ ?p" by simp
    finally have "?q \<le> 2 * \<bar>z\<bar> / 2 ^ ?p" .
    moreover have "(0::rat) \<le> 1 / 2 ^ ?s" by simp
    ultimately show ?thesis by linarith
  qed
  then have "?q / 2 \<le> (2 * \<bar>z\<bar> / 2 ^ ?p + 1 / 2 ^ ?s) / 2" by (rule divide_right_mono) simp
  also have "\<dots> = \<bar>z\<bar> / 2 ^ ?p + 1 / 2 ^ Suc ?s" by (simp add: add_divide_distrib)
  finally show ?thesis using half by linarith
qed

lemma cast_power_of_ten:
  assumes "d < 9" and "(10::int) ^ d < 2 ^ mantissa P"
  shows "cast P (power_of_ten d) = Finite (10 ^ d)"
proof -
  have "fp_round P (of_int (10 ^ d)) = Finite (of_int (10 ^ d))"
    using assms(2) by (intro fp_round_int) simp
  then show ?thesis using assms(1) by (simp add: power_of_ten_def)
qed

lemma np_round_int:
  assumes d: "0 < d" "d < 9" and k: "\<bar>k\<bar> * 10 ^ d < 2 ^ mantissa P"
    and f: "(10::int) ^ d < 2 ^ mantissa P"
  shows "np_round P (Finite (of_int k)) (int d) = Finite (of_int k)"
proof -
  have c: "cast P (power_of_ten d) = Finite (10 ^ d)" using d(2) f by (rule cast_power_of_ten)
  have "\<bar>k * 10 ^ d\<bar> < 2 ^ mantissa P" using k by (simp add: abs_mult)
  then have "fp_round P (of_int (k * 10 ^ d)) = Finite (of_int (k * 10 ^ d))"
    by (rule fp_round_int)
  then have m: "f_mul P (Finite (of_int k)) (Finite (10 ^ d)) = Finite (of_int (k * 10 ^ d))"
    by simp
  have "\<bar>k\<bar> * 1 \<le> \<bar>k\<bar> * 10 ^ d" by (intro mult_left_mono) simp_all
  then have "\<bar>k\<bar> < 2 ^ mantissa P" using k by linarith
  then have "fp_round P (of_int k) = Finite (of_int k)" by (rule fp_round_int)
  then have "f_div P (Finite (of_int (k * 10 ^ d))) (Finite (10 ^ d)) = Finite (of_int k)"
    by simp
  moreover have "rint (rat_of_int k * 10 ^ d) = k * 10 ^ d"
    using rint_of_int [of "k * 10 ^ d"] by simp
  ultimately show ?thesis using d(1) c m by (simp add: np_round_def)
qed

lemma np_round_3:
  "\<bar>k\<bar> * 1000 < 2 ^ mantissa P \<Longrightarrow> np_round P (Finite (of_int k)) 3 = Finite (of_int k)"
  using np_round_int [of 3 k P] by (cases P) simp_all

lemma np_round_7:
  "\<bar>k\<bar> * 10000000 < 2 ^ mantissa P \<Longrightarrow> np_round P (Finite (of_int k)) 7 = Finite (of_int k)"
  using np_round_int [of 7 k P] by (cases P) simp_all

lemma np_round_zero: "np_round P (Finite 0) 3 = Finite 0" "np_round P (Finite 0) 7 = Finite 0"
  using np_round_3 [of 0 P] np_round_7 [of 0 P] by simp_all

lemma np_round_7_finite:
  assumes "np_round Single (Finite x) 7 = Finite r"
  shows "\<exists>m. Finite r = fp_round Single (of_int m / 10 ^ 7)
           \<and> \<bar>of_int m - x * 10 ^ 7\<bar> \<le> 1 / 2 + \<bar>x\<bar> * 10 ^ 7 / 2 ^ 24 + 1 / 2 ^ 150"
proof -
  have c: "cast Single (power_of_ten 7) = Finite (10 ^ 7)"
    by (rule cast_power_of_ten) simp_all
  have r: "f_div Single (f_rint (fp_round Single (x * 10 ^ 7))) (Finite (10 ^ 7)) = Finite r"
    using assms c by (simp add: np_round_def)
  then obtain y where y: "fp_round Single (x * 10 ^ 7) = Finite y"
    by (cases "fp_round Single (x * 10 ^ 7)") (simp_all add: signed_inf_def)
  have e: "\<bar>y - x * 10 ^ 7\<bar> \<le> \<bar>x * 10 ^ 7\<bar> / 2 ^ 24 + 1 / 2 ^ 150"
    using fp_round_error [OF y] by simp
  have "\<bar>of_int (rint y) - x * 10 ^ 7\<bar> \<le> \<bar>of_int (rint y) - y\<bar> + \<bar>y - x * 10 ^ 7\<bar>"
    by linarith
  also have "\<dots> \<le> 1 / 2 + (\<bar>x * 10 ^ 7\<bar> / 2 ^ 24 + 1 / 2 ^ 150)"
    using rint_error [of y] e by (rule add_mono)
  finally have "\<bar>of_int (rint y) - x * 10 ^ 7\<bar> \<le> 1 / 2 + \<bar>x\<bar> * 10 ^ 7 / 2 ^ 24 + 1 / 2 ^ 150"
    by (simp add: abs_mult)
  moreover have "Finite r = fp_round Single (of_int (rint y) / 10 ^ 7)"
    using r y by simp
  ultimately show ?thesis by blast
qed

subsection \<open>Computing a rounding\<close>

lemma floor_rat_numeral: "\<lfloor>(numeral a :: rat) / numeral b\<rfloor> = numeral a div numeral b"
  by (metis floor_divide_of_int_eq of_int_numeral)

lemma floor_rat_one: "\<lfloor>(1 :: rat) / numeral b\<rfloor> = 1 div numeral b"
  by (metis floor_divide_of_int_eq of_int_1 of_int_numeral)

lemma fp_round_value:
  assumes "quantum P x = q" and "rint (x / q) = m" and "r = of_int m * q"
    and "\<bar>r\<bar> < 2 ^ overflow_exponent P"
  shows "fp_round P x = Finite r"
  using assms by (simp add: fp_round_def Let_def)

lemma np_round_value:
  assumes "0 < d" and "cast P (power_of_ten (nat d)) = Finite f" and "f \<noteq> 0"
    and "fp_round P (x * f) = Finite y" and "fp_round P (of_int (rint y) / f) = Finite r"
  shows "np_round P (Finite x) d = Finite r"
  using assms by (simp add: np_round_def)

lemmas quantum_eval = quantum_def Let_def bit_length.simps floor_rat_numeral floor_rat_one

lemmas rint_eval = rint_def Let_def floor_rat_numeral floor_rat_one

text \<open>
  The values below are the \<open>float32\<close> nearest to \<open>4e-8\<close>, to 0.05, to 123456789 and to 16777217,
  and the roundings of \<open>float32\<close> values to 7, 1 and 3 decimals.
\<close>

lemma float32_4e8: "fp_round Single (4 / 10 ^ 8) = Finite (11258999 / 2 ^ 48)"
proof (rule fp_round_value)
  show "quantum Single (4 / 10 ^ 8) = 1 / 2 ^ 48" by (simp add: quantum_eval)
  show "rint (4 / 10 ^ 8 / (1 / 2 ^ 48)) = 11258999" by (simp add: rint_eval)
qed simp_all

lemma np_round_4e8: "np_round Single (Finite (11258999 / 2 ^ 48)) 7 = Finite 0"
proof (rule np_round_value)
  show "cast Single (power_of_ten (nat 7)) = Finite (10 ^ 7)"
    using cast_power_of_ten [of 7 Single] by simp
  show "fp_round Single (11258999 / 2 ^ 48 * 10 ^ 7) = Finite (13421773 / 2 ^ 25)"
  proof (rule fp_round_value)
    show "quantum Single (11258999 / 2 ^ 48 * 10 ^ 7) = 1 / 2 ^ 25" by (simp add: quantum_eval)
    show "rint (11258999 / 2 ^ 48 * 10 ^ 7 / (1 / 2 ^ 25)) = 13421773" by (simp add: rint_eval)
  qed simp_all
  have r: "rint (13421773 / 2 ^ 25) = 0" by (simp add: rint_eval)
  show "fp_round Single (of_int (rint (13421773 / 2 ^ 25)) / 10 ^ 7) = Finite 0"
    using r fp_round_int [of 0 Single] by simp
qed simp_all

lemma float32_5e2: "fp_round Single (5 / 100) = Finite (13421773 / 2 ^ 28)"
proof (rule fp_round_value)
  show "quantum Single (5 / 100) = 1 / 2 ^ 28" by (simp add: quantum_eval)
  show "rint (5 / 100 / (1 / 2 ^ 28)) = 13421773" by (simp add: rint_eval)
qed simp_all

lemma np_round_5e2: "np_round Single (Finite (13421773 / 2 ^ 28)) 1 = Finite 0"
proof (rule np_round_value)
  show "cast Single (power_of_ten (nat 1)) = Finite (10 ^ 1)"
    using cast_power_of_ten [of 1 Single] by simp
  show "fp_round Single (13421773 / 2 ^ 28 * 10 ^ 1) = Finite (1 / 2 ^ 1)"
  proof (rule fp_round_value)
    show "quantum Single (13421773 / 2 ^ 28 * 10 ^ 1) = 1 / 2 ^ 24" by (simp add: quantum_eval)
    show "rint (13421773 / 2 ^ 28 * 10 ^ 1 / (1 / 2 ^ 24)) = 8388608" by (simp add: rint_eval)
  qed simp_all
  have r: "rint (1 / 2 ^ 1) = 0" by (simp add: rint_eval)
  show "fp_round Single (of_int (rint (1 / 2 ^ 1)) / 10 ^ 1) = Finite 0"
    using r fp_round_int [of 0 Single] by simp
qed simp_all

lemma float32_123456789: "fp_round Single 123456789 = Finite 123456792"
proof (rule fp_round_value)
  show "quantum Single 123456789 = 2 ^ 3" by (simp add: quantum_eval)
  show "rint (123456789 / 2 ^ 3) = 15432099" by (simp add: rint_eval)
qed simp_all

lemma np_round_123456789: "np_round Single (Finite 123456792) 7 = Finite 123456792"
proof (rule np_round_value)
  show "cast Single (power_of_ten (nat 7)) = Finite (10 ^ 7)"
    using cast_power_of_ten [of 7 Single] by simp
  show "fp_round Single (123456792 * 10 ^ 7) = Finite 1234567948140544"
  proof (rule fp_round_value)
    show "quantum Single (123456792 * 10 ^ 7) = 2 ^ 27" by (simp add: quantum_eval)
    show "rint (123456792 * 10 ^ 7 / 2 ^ 27) = 9198248" by (simp add: rint_eval)
  qed simp_all
  have r: "rint 1234567948140544 = 1234567948140544" using rint_of_int [of 1234567948140544] by simp
  have "fp_round Single (1234567948140544 / 10 ^ 7) = Finite 123456792"
  proof (rule fp_round_value)
    show "quantum Single (1234567948140544 / 10 ^ 7) = 2 ^ 3" by (simp add: quantum_eval)
    show "rint (1234567948140544 / 10 ^ 7 / 2 ^ 3) = 15432099" by (simp add: rint_eval)
  qed simp_all
  then show "fp_round Single (of_int (rint 1234567948140544) / 10 ^ 7) = Finite 123456792"
    using r by simp
qed simp_all

lemma float32_16777217: "fp_round Single 16777217 = Finite 16777216"
proof (rule fp_round_value)
  show "quantum Single 16777217 = 2 ^ 1" by (simp add: quantum_eval)
  show "rint (16777217 / 2 ^ 1) = 8388608" by (simp add: rint_eval)
qed simp_all

lemma np_round_two: "np_round Single (Finite 2) 7 = Finite 2"
proof (rule np_round_value)
  show "cast Single (power_of_ten (nat 7)) = Finite (10 ^ 7)"
    using cast_power_of_ten [of 7 Single] by simp
  show "fp_round Single (2 * 10 ^ 7) = Finite 20000000"
  proof (rule fp_round_value)
    show "quantum Single (2 * 10 ^ 7) = 2 ^ 1" by (simp add: quantum_eval)
    show "rint (2 * 10 ^ 7 / 2 ^ 1) = 10000000" by (simp add: rint_eval)
  qed simp_all
  have r: "rint 20000000 = 20000000" using rint_of_int [of 20000000] by simp
  have "fp_round Single (20000000 / 10 ^ 7) = Finite 2"
  proof (rule fp_round_value)
    show "quantum Single (20000000 / 10 ^ 7) = 1 / 2 ^ 22" by (simp add: quantum_eval)
    show "rint (20000000 / 10 ^ 7 / (1 / 2 ^ 22)) = 8388608" by (simp add: rint_eval)
  qed simp_all
  then show "fp_round Single (of_int (rint 20000000) / 10 ^ 7) = Finite 2"
    using r by simp
qed simp_all

lemma np_round_three: "np_round Single (Finite 3) 7 = Finite 3"
proof (rule np_round_value)
  show "cast Single (power_of_ten (nat 7)) = Finite (10 ^ 7)"
    using cast_power_of_ten [of 7 Single] by simp
  show "fp_round Single (3 * 10 ^ 7) = Finite 30000000"
  proof (rule fp_round_value)
    show "quantum Single (3 * 10 ^ 7) = 2 ^ 1" by (simp add: quantum_eval)
    show "rint (3 * 10 ^ 7 / 2 ^ 1) = 15000000" by (simp add: rint_eval)
  qed simp_all
  have r: "rint 30000000 = 30000000" using rint_of_int [of 30000000] by simp
  have "fp_round Single (30000000 / 10 ^ 7) = Finite 3"
  proof (rule fp_round_value)
    show "quantum Single (30000000 / 10 ^ 7) = 1 / 2 ^ 22" by (simp add: quantum_eval)
    show "rint (30000000 / 10 ^ 7 / (1 / 2 ^ 22)) = 12582912" by (simp add: rint_eval)
  qed simp_all
  then show "fp_round Single (of_int (rint 30000000) / 10 ^ 7) = Finite 3"
    using r by simp
qed simp_all

lemma np_round_half_thousandth: "np_round Single (Finite (8589935 / 2 ^ 34)) 3 = Finite 0"
proof (rule np_round_value)
  show "cast Single (power_of_ten (nat 3)) = Finite (10 ^ 3)"
    using cast_power_of_ten [of 3 Single] by simp
  show "fp_round Single (8589935 / 2 ^ 34 * 10 ^ 3) = Finite (1 / 2 ^ 1)"
  proof (rule fp_round_value)
    show "quantum Single (8589935 / 2 ^ 34 * 10 ^ 3) = 1 / 2 ^ 24" by (simp add: quantum_eval)
    show "rint (8589935 / 2 ^ 34 * 10 ^ 3 / (1 / 2 ^ 24)) = 8388608" by (simp add: rint_eval)
  qed simp_all
  have r: "rint (1 / 2 ^ 1) = 0" by (simp add: rint_eval)
  show "fp_round Single (of_int (rint (1 / 2 ^ 1)) / 10 ^ 3) = Finite 0"
    using r fp_round_int [of 0 Single] by simp
qed simp_all

lemma float32_overflow: "fp_round Single (10 ^ 39) = PosInf"
proof -
  have "quantum Single (10 ^ 39) = 2 ^ 106" by (simp add: quantum_eval)
  then show ?thesis by (simp add: fp_round_def rint_eval)
qed

lemma np_round_infinite: "np_round Single PosInf 7 = PosInf"
  using cast_power_of_ten [of 7 Single] by (simp add: np_round_def signed_inf_def)

section \<open>Properties of the formatting functions\<close>

subsection \<open>with\_sign\<close>

lemma digit_char_digit: "d < 10 \<Longrightarrow> digit_char d \<in> set ''0123456789''"
  unfolding digit_char_def by (rule nth_mem) simp

lemma str_nat_hd: "\<exists>c cs. str_nat n = c # cs \<and> c \<in> set ''0123456789''"
proof (induction n rule: str_nat.induct)
  case (1 n)
  show ?case
  proof (cases "n < 10")
    case True
    then show ?thesis using digit_char_digit [of n] by (subst str_nat.simps) simp
  next
    case False
    with 1 obtain c cs where "str_nat (n div 10) = c # cs" "c \<in> set ''0123456789''" by blast
    then show ?thesis using False by (subst str_nat.simps) simp
  qed
qed

lemma str_nat_no_minus: "\<not> startswith (str_nat n) ''-''" "\<not> startswith (str_nat n) ''(-''"
  using str_nat_hd [of n] by (auto simp: startswith_def)

lemma py_int_of_int: "py_int (of_int k) = k"
  by (simp add: py_int_def)

lemma remove_unnecessary_decimals_int:
  "\<bar>k\<bar> < 2 ^ 24 \<Longrightarrow> remove_unnecessary_decimals (Finite (of_int k)) = PyInt k"
  using fp_round_int [of k Single]
  by (simp add: remove_unnecessary_decimals_def py_int_of_int)

lemma remove_null_imag_int:
  assumes "\<bar>k\<bar> * 1000 < 2 ^ mantissa (dtype z)" and "\<bar>k\<bar> < 2 ^ 24"
    and "re z = of_int k" and "im z = 0"
  shows "remove_null_imag z = PyInt k"
  using assms np_round_3 [of k "dtype z"] np_round_zero(1) [of "dtype z"]
    remove_unnecessary_decimals_int [of k]
  by (simp add: remove_null_imag_def)

lemma remove_null_imag_imag:
  assumes "\<bar>m\<bar> * 1000 < 2 ^ mantissa (dtype z)" and "m \<noteq> 0"
    and "re z = 0" and "im z = of_int m"
  shows "remove_null_imag z = PyComplex (dtype z) (Finite 0) (Finite (of_int m))"
  using assms np_round_3 [of m "dtype z"] np_round_zero(1) [of "dtype z"]
  by (simp add: remove_null_imag_def)

lemma with_sign_signed:
  "startswith (with_sign pr val) ''+ '' \<or> startswith (with_sign pr val) ''- ''"
  by (simp add: with_sign_def startswith_def Let_def)

lemma with_sign_integer:
  assumes "\<bar>k\<bar> * 1000 < 2 ^ mantissa (dtype z)" and "\<bar>k\<bar> < 2 ^ 24"
    and "re z = of_int k" and "im z = 0"
  shows "with_sign pr z = real_text k"
proof -
  have r: "remove_null_imag z = PyInt k" using assms by (rule remove_null_imag_int)
  have z: "remove_unnecessary_decimals (Finite 0) = PyInt 0"
    using remove_unnecessary_decimals_int [of 0] by simp
  show ?thesis
    using str_nat_no_minus [of "nat k"]
    by (simp add: with_sign_def r z num_is_one_def py_str_def str_int_def startswith_def
        str_nat.simps [of 0] digit_char_def real_text_def signed_text_def)
qed

lemma with_sign_imaginary:
  assumes "\<bar>m\<bar> * 1000 < 2 ^ mantissa (dtype z)" and "\<bar>m\<bar> < 2 ^ 24"
    and "re z = 0" and "im z = of_int m"
  shows "with_sign pr z = signed_text m @ ''j''"
proof (cases "m = 0")
  case True
  have "\<bar>0::int\<bar> * 1000 < 2 ^ mantissa (dtype z)" by (cases "dtype z") simp_all
  then have "with_sign pr z = real_text 0"
    using assms(3,4) True by (intro with_sign_integer) simp_all
  then show ?thesis using True
    by (simp add: real_text_def signed_text_def str_nat.simps [of 0] digit_char_def)
next
  case False
  have r: "remove_null_imag z = PyComplex (dtype z) (Finite 0) (Finite (of_int m))"
    using assms(1) False assms(3,4) by (rule remove_null_imag_imag)
  have a: "remove_unnecessary_decimals (Finite \<bar>rat_of_int m\<bar>) = PyInt \<bar>m\<bar>"
    using remove_unnecessary_decimals_int [of "\<bar>m\<bar>"] assms(2) by simp
  show ?thesis
    using False
    by (simp add: with_sign_def r a num_is_one_def py_str_def str_int_def signed_text_def
        del: of_int_abs)
qed

lemma with_sign_complex64_real: "\<bar>k\<bar> \<le> 16777 \<Longrightarrow> with_sign pr (Complex64 (of_int k) 0) = real_text k"
  by (rule with_sign_integer) simp_all

lemma with_sign_complex128_real: "\<bar>k\<bar> < 16777216 \<Longrightarrow> with_sign pr (Complex128 (of_int k) 0) = real_text k"
  by (rule with_sign_integer) simp_all

lemma with_sign_complex64_imag: "\<bar>k\<bar> \<le> 16777 \<Longrightarrow> with_sign pr (Complex64 0 (of_int k)) = signed_text k @ ''j''"
  by (rule with_sign_imaginary) simp_all

lemma with_sign_complex128_imag:
  "\<bar>k\<bar> < 16777216 \<Longrightarrow> with_sign pr (Complex128 0 (of_int k)) = signed_text k @ ''j''"
  by (rule with_sign_imaginary) simp_all

lemma with_sign_examples:
  "with_sign pr (Complex128 1 0) = ''+ ''"
  "with_sign pr (Complex128 (- 2) 0) = ''- 2''"
  "with_sign pr (Complex128 0 3) = ''+ 3j''"
  "with_sign pr (Complex64 1 0) = ''+ ''"
  "with_sign pr (Complex64 (- 2) 0) = ''- 2''"
  "with_sign pr (Complex64 0 3) = ''+ 3j''"
  using with_sign_complex128_real [of 1 pr] with_sign_complex128_real [of "- 2" pr] with_sign_complex128_imag [of 3 pr]
    with_sign_complex64_real [of 1 pr] with_sign_complex64_real [of "- 2" pr] with_sign_complex64_imag [of 3 pr]
  by (simp_all add: real_text_def signed_text_def str_nat.simps digit_char_def)


text \<open>
  The cast of line 59 shows on a Python complex beyond the integers of \<open>float32\<close>:
  \<open>with_sign(16777217+0j)\<close> is \<open>"+ 16777216"\<close>.
\<close>

lemma with_sign_float32_cast: "with_sign pr (Complex128 16777217 0) = ''+ 16777216''"
proof -
  have "np_round Double (Finite (of_int 16777217)) 3 = Finite (of_int 16777217)"
    by (rule np_round_3) simp
  then have r: "remove_null_imag (Complex128 16777217 0) = PyInt 16777216"
    using np_round_zero(1) [of Double] float32_16777217
    by (simp add: remove_null_imag_def remove_unnecessary_decimals_def py_int_def)
  have "str_nat 16777216 = ''16777216''"
    by (simp add: str_nat.simps digit_char_def)
  then show ?thesis
    by (simp add: with_sign_def r num_is_one_def py_str_def str_int_def startswith_def)
qed

text \<open>
  C8. \<open>with_sign\<close> always starts with a sign and a blank. An integer \<open>k\<close> that \<open>np.round\<close> and
  the cast to \<open>float32\<close> keep (\<open>\<bar>k\<bar> \<le> 16777\<close> in a \<open>complex64\<close>, \<open>\<bar>k\<bar> < 2^24\<close> in a Python
  complex) prints, as a real part, as the sign and the digits of \<open>\<bar>k\<bar>\<close> with no decimal point
  and no imaginary part (1 as the sign alone, 0 as \<open>+ 0j\<close>) and, as an imaginary part, as the
  sign, the digits and \<open>j\<close>. In particular \<open>with_sign(1+0j)\<close> is \<open>"+ "\<close>, \<open>with_sign(-2+0j)\<close>
  is \<open>"- 2"\<close> and \<open>with_sign(0+3j)\<close> is \<open>"+ 3j"\<close>, for a Python complex and for a
  \<open>complex64\<close>.
\<close>

theorem with_sign_format:
  "(startswith (with_sign pr val) ''+ '' \<or> startswith (with_sign pr val) ''- '')
   \<and> (\<bar>k\<bar> \<le> 16777 \<longrightarrow>
        with_sign pr (Complex64 (of_int k) 0) = real_text k
        \<and> with_sign pr (Complex64 0 (of_int k)) = signed_text k @ ''j'')
   \<and> (\<bar>k\<bar> < 16777216 \<longrightarrow>
        with_sign pr (Complex128 (of_int k) 0) = real_text k
        \<and> with_sign pr (Complex128 0 (of_int k)) = signed_text k @ ''j'')
   \<and> with_sign pr (Complex128 1 0) = ''+ ''
   \<and> with_sign pr (Complex128 (- 2) 0) = ''- 2''
   \<and> with_sign pr (Complex128 0 3) = ''+ 3j''
   \<and> with_sign pr (Complex64 1 0) = ''+ ''
   \<and> with_sign pr (Complex64 (- 2) 0) = ''- 2''
   \<and> with_sign pr (Complex64 0 3) = ''+ 3j''"
  by (intro conjI impI with_sign_signed with_sign_complex64_real with_sign_complex64_imag
      with_sign_complex128_real with_sign_complex128_imag with_sign_examples)

theorem with_sign_format_witness:
  "\<bar>- 7 :: int\<bar> \<le> 16777
   \<and> with_sign unused_printers (Complex64 (of_int (- 7)) 0) = ''- 7''
   \<and> with_sign unused_printers (Complex128 0 (of_int (- 7))) = ''- 7j''
   \<and> with_sign unused_printers (Complex128 (- 2) 0) = ''- 2''"
  using with_sign_format [of unused_printers "Complex64 0 0" "- 7"]
  by (simp add: real_text_def signed_text_def str_nat.simps digit_char_def)

subsection \<open>state\_vector\_ket\_shape\<close>

text \<open>
  C6. On the basis state \<open>[1, 0, 0, 0]\<close> the only term is \<open>"+ |00\<rangle>"\<close>, and the slice \<open>[2:]\<close>
  on line 24 removes its sign and blank: the result is \<open>"|00\<rangle>"\<close>.
\<close>

theorem ket_shape_basis_00:
  "state_vector_ket_shape pr (Vector [Complex64 1 0, Complex64 0 0, Complex64 0 0, Complex64 0 0])
     = Inr (''|00'' @ rangle)"
  using np_round_3 [of 1 Single]
  by (simp add: state_vector_ket_shape_def ilog2.simps rounds_to_nonzero_def
      np_round_zero ket_term_def with_sign_examples binary_repr_def)

theorem ket_shape_basis_00_counterexample:
  "state_vector_ket_shape unused_printers
     (Vector [Complex64 1 0, Complex64 0 0, Complex64 0 0, Complex64 0 0])
     \<noteq> Inr (''+ |00'' @ rangle)"
  using np_round_3 [of 1 Single]
  by (simp add: state_vector_ket_shape_def ilog2.simps rounds_to_nonzero_def
      np_round_zero ket_term_def with_sign_examples binary_repr_def)

lemma ilog2_power: "ilog2 (2 ^ k) = k"
  by (induction k) (simp_all add: ilog2.simps)

lemma power_ilog2_iff: "(2 ^ ilog2 n = n) = (\<exists>k. n = 2 ^ k)"
  using ilog2_power by metis

text \<open>
  A \<open>ValueError\<close> is raised exactly for an array that is not one-dimensional and for a
  non-empty vector whose length is not a power of two.
\<close>

lemma ket_shape_ValueError_iff:
  "(\<exists>e. state_vector_ket_shape pr sv = Inl (ValueError e)) =
     (ndim sv \<noteq> 1 \<or> (\<exists>xs. sv = Vector xs \<and> xs \<noteq> [] \<and> (\<forall>k. length xs \<noteq> 2 ^ k)))"
  using power_ilog2_iff
  by (cases sv) (auto simp: state_vector_ket_shape_def Let_def)

text \<open>
  A component rounds in its own precision: the \<open>float32\<close> nearest to 0.0005 times 1000 is 0.5
  in \<open>float32\<close>, which rounds to 0, so the component has no term.
\<close>

lemma rounds_to_nonzero_half_thousandth:
  "\<not> rounds_to_nonzero (Complex64 (8589935 / 2 ^ 34) 0)"
  by (simp add: rounds_to_nonzero_def np_round_half_thousandth np_round_zero del: power_numeral)

text \<open>When it returns, the terms are those of the components that do not round to zero.\<close>

lemma ket_shape_returns:
  "state_vector_ket_shape pr (Vector xs) = Inr s \<Longrightarrow>
     s = drop 2 (join '' '' (map (ket_term pr (ilog2 (length xs)))
           (filter (\<lambda>iv. rounds_to_nonzero (snd iv)) (enumerate 0 xs))))"
  by (auto simp: state_vector_ket_shape_def Let_def split: if_splits)

text \<open>
  C7. The empty vector is one-dimensional and its length, 0, is not a power of two, yet the
  call does not raise the \<open>ValueError\<close> of line 17: \<open>np.log2(0)\<close> is \<open>-inf\<close> and \<open>int\<close>
  raises \<open>OverflowError\<close> on line 15.
\<close>

theorem ket_shape_empty_vector:
  "state_vector_ket_shape pr (Vector []) = Inl OverflowError"
  by (simp add: state_vector_ket_shape_def)

subsection \<open>clean\_1D\_array\<close>

lemma py_int_integer: "x = of_int \<lfloor>x\<rfloor> \<Longrightarrow> py_int x = \<lfloor>x\<rfloor>"
  unfolding py_int_def by (metis ceiling_of_int)

lemma collapse_int_test: "(x = of_int (py_int x)) = (x = of_int \<lfloor>x\<rfloor>)"
  unfolding py_int_def by (metis (full_types) floor_of_int ceiling_of_int)

lemma collapse_int_finite:
  "collapse_int (Finite x) =
     Inr (if x = of_int \<lfloor>x\<rfloor> then Num (PyInt \<lfloor>x\<rfloor>) else Num (PyFloat (Finite x)))"
  by (simp add: collapse_int_def collapse_int_test py_int_integer)

lemma startswith_j: "startswith (s @ ''j'') ''-'' = startswith s ''-''"
  by (cases s) (simp_all add: startswith_def)

lemma element_text_rendered:
  "element_text pr
     (if x = of_int \<lfloor>x\<rfloor> then Num (PyInt \<lfloor>x\<rfloor>) else Num (PyFloat (Finite x)))
     (if y = of_int \<lfloor>y\<rfloor> then Num (PyInt \<lfloor>y\<rfloor>) else Num (PyFloat (Finite y)))
   = rendered_element pr x y"
proof -
  have zx: "part_is_zero (if x = of_int \<lfloor>x\<rfloor> then Num (PyInt \<lfloor>x\<rfloor>) else Num (PyFloat (Finite x)))
      = (x = 0)"
    by (auto simp: part_is_zero_def)
  have zy: "part_is_zero (if y = of_int \<lfloor>y\<rfloor> then Num (PyInt \<lfloor>y\<rfloor>) else Num (PyFloat (Finite y)))
      = (y = 0)"
    by (auto simp: part_is_zero_def)
  have tx: "part_str pr (if x = of_int \<lfloor>x\<rfloor> then Num (PyInt \<lfloor>x\<rfloor>) else Num (PyFloat (Finite x)))
      = number_text pr x"
    by (simp add: part_str_def py_str_def number_text_def)
  have ty: "part_str pr (if y = of_int \<lfloor>y\<rfloor> then Num (PyInt \<lfloor>y\<rfloor>) else Num (PyFloat (Finite y)))
      = number_text pr y"
    by (simp add: part_str_def py_str_def number_text_def)
  have s: "\<And>s. part_str pr (Str s) = s" by (simp add: part_str_def)
  have n: "(if x = of_int \<lfloor>x\<rfloor> then Num (PyInt \<lfloor>x\<rfloor>) else Num (PyFloat (Finite x))) \<noteq> Str []"
    by simp
  show ?thesis
    unfolding element_text_def Let_def zx zy
    using tx ty n by (simp add: s startswith_j rendered_element_def)
qed

lemma clean_element_finite:
  assumes "np_round Single (fst e) d = Finite x" and "np_round Single (snd e) d = Finite y"
  shows "clean_element pr d e = Inr (rendered_element pr x y)"
  using assms
  by (simp add: clean_element_def collapse_int_finite element_text_rendered)

lemma clean_elements_finite:
  "list_all (finite_parts d) array \<Longrightarrow>
     clean_elements pr d (map to_complex64 array) = Inr (map (rendered pr d) array)"
proof (induction array)
  case Nil
  then show ?case by simp
next
  case (Cons z array)
  then obtain x y where xy: "np_round Single (fst (to_complex64 z)) d = Finite x"
      "np_round Single (snd (to_complex64 z)) d = Finite y"
    by (cases "np_round Single (fst (to_complex64 z)) d";
        cases "np_round Single (snd (to_complex64 z)) d")
       (simp_all add: finite_parts_def rounded_parts_def)
  then have "clean_element pr d (to_complex64 z) = Inr (rendered pr d z)"
    using clean_element_finite [OF xy] by (simp add: rendered_def rounded_parts_def)
  then show ?case using Cons by simp
qed

lemma clean_1D_array_finite:
  "list_all (finite_parts d) array \<Longrightarrow>
     clean_1D_array pr array d = Inr (''['' @ join '', '' (map (rendered pr d) array) @ '']'')"
  by (simp add: clean_1D_array_def clean_elements_finite)

lemma np_round_7_decimals:
  assumes "np_round Single (Finite x) 7 = Finite r"
  shows "\<exists>m. Finite r = fp_round Single (of_int m / 10 ^ 7)
           \<and> \<bar>of_int m / 10 ^ 7 - x\<bar> \<le> 1 / (2 * 10 ^ 7) + \<bar>x\<bar> / 2 ^ 24 + 1 / (2 ^ 150 * 10 ^ 7)"
proof -
  obtain m where m: "Finite r = fp_round Single (of_int m / 10 ^ 7)"
      "\<bar>of_int m - x * 10 ^ 7\<bar> \<le> 1 / 2 + \<bar>x\<bar> * 10 ^ 7 / 2 ^ 24 + 1 / 2 ^ 150"
    using np_round_7_finite [OF assms] by blast
  have "\<bar>rat_of_int m / 10 ^ 7 - x\<bar> = \<bar>of_int m - x * 10 ^ 7\<bar> / 10 ^ 7"
    by (simp add: field_simps)
  also have "\<dots> \<le> (1 / 2 + \<bar>x\<bar> * 10 ^ 7 / 2 ^ 24 + 1 / 2 ^ 150) / 10 ^ 7"
    using m(2) by (rule divide_right_mono) simp
  also have "\<dots> = 1 / (2 * 10 ^ 7) + \<bar>x\<bar> / 2 ^ 24 + 1 / (2 ^ 150 * 10 ^ 7)"
    by (simp add: add_divide_distrib)
  finally show ?thesis using m(1) by blast
qed

lemma to_complex64_int:
  "\<bar>k\<bar> < 2 ^ 24 \<Longrightarrow> to_complex64 (Complex128 (of_int k) 0) = (Finite (of_int k), Finite 0)"
  using fp_round_int [of k Single] fp_round_int [of 0 Single]
  by (simp add: to_complex64_def)

lemma rounded_parts_int:
  assumes "\<bar>k\<bar> \<le> 1"
  shows "rounded_parts 7 (Complex128 (of_int k) 0) = (Finite (of_int k), Finite 0)"
proof -
  have "\<bar>k\<bar> < 2 ^ 24" using assms by simp
  moreover have "\<bar>k\<bar> * 10000000 < 2 ^ mantissa Single" using assms by simp
  ultimately show ?thesis
    using np_round_7 [of k Single] np_round_zero(2) [of Single]
    by (simp add: rounded_parts_def to_complex64_int)
qed

text \<open>The rounded parts of the elements of the examples.\<close>

lemma rounded_parts_real:
  assumes "fp_round Single x = Finite c" and "np_round Single (Finite c) d = Finite r"
    and "np_round Single (Finite 0) d = Finite 0"
  shows "rounded_parts d (Complex128 x 0) = (Finite r, Finite 0)"
  using assms fp_round_int [of 0 Single]
  by (simp add: rounded_parts_def to_complex64_def)

lemma rounded_parts_2: "rounded_parts 7 (Complex128 2 0) = (Finite 2, Finite 0)"
proof (rule rounded_parts_real [where c = 2])
  show "fp_round Single 2 = Finite 2" using fp_round_int [of 2 Single] by simp
qed (rule np_round_two np_round_zero)+

lemma rounded_parts_3: "rounded_parts 7 (Complex128 3 0) = (Finite 3, Finite 0)"
proof (rule rounded_parts_real [where c = 3])
  show "fp_round Single 3 = Finite 3" using fp_round_int [of 3 Single] by simp
qed (rule np_round_three np_round_zero)+

lemma rounded_parts_123456789:
  "rounded_parts 7 (Complex128 123456789 0) = (Finite 123456792, Finite 0)"
  by (rule rounded_parts_real [where c = 123456792])
    (rule float32_123456789 np_round_123456789 np_round_zero)+

lemma rounded_parts_tiny: "rounded_parts 7 (Complex128 (4 / 10 ^ 8) 0) = (Finite 0, Finite 0)"
  by (rule rounded_parts_real [where c = "11258999 / 2 ^ 48"])
    (rule float32_4e8 np_round_4e8 np_round_zero)+

lemma rounded_parts_one_decimal:
  "rounded_parts 1 (Complex128 (5 / 100) 0) = (Finite 0, Finite 0)"
proof (rule rounded_parts_real [where c = "13421773 / 2 ^ 28"])
  show "np_round Single (Finite 0) 1 = Finite 0" using np_round_int [of 1 0 Single] by simp
qed (rule float32_5e2 np_round_5e2)+

lemma number_text_digit:
  "number_text pr 0 = ''0''" "number_text pr 1 = ''1''" "number_text pr 2 = ''2''"
  "number_text pr 3 = ''3''" "number_text pr 123456792 = ''123456792''"
  by (simp_all add: number_text_def str_int_def str_nat.simps digit_char_def)

lemma clean_1D_array_123:
  "clean_1D_array_default pr [Complex128 1 0, Complex128 2 0, Complex128 3 0] = Inr ''[1, 2, 3]''"
proof -
  have one: "rounded_parts 7 (Complex128 1 0) = (Finite 1, Finite 0)"
    using rounded_parts_int [of 1] by simp
  have "list_all (finite_parts 7) [Complex128 1 0, Complex128 2 0, Complex128 3 0]"
    by (simp add: finite_parts_def one rounded_parts_2 rounded_parts_3)
  then show ?thesis
    by (simp add: clean_1D_array_default_def clean_1D_array_finite rendered_def one
        rounded_parts_2 rounded_parts_3 rendered_element_def number_text_digit)
qed

lemma clean_1D_array_converted:
  "clean_1D_array_default pr [Complex128 123456789 0] = Inr ''[123456792]''"
proof -
  have "list_all (finite_parts 7) [Complex128 123456789 0]"
    by (simp add: finite_parts_def rounded_parts_123456789)
  then show ?thesis
    by (simp add: clean_1D_array_default_def clean_1D_array_finite rendered_def
        rounded_parts_123456789 rendered_element_def number_text_digit)
qed

lemma clean_1D_array_tiny:
  "clean_1D_array_default pr [Complex128 (4 / 10 ^ 8) 0] = Inr ''[0]''"
proof -
  have "finite_parts 7 (Complex128 (4 / 10 ^ 8) 0)"
    unfolding finite_parts_def rounded_parts_tiny by simp
  then have fin: "list_all (finite_parts 7) [Complex128 (4 / 10 ^ 8) 0]" by simp
  show ?thesis
    unfolding clean_1D_array_default_def clean_1D_array_finite [OF fin] list.map rendered_def
      rounded_parts_tiny
    by (simp add: rendered_element_def number_text_digit)
qed

text \<open>With \<open>round=1\<close> the element 0.05 is printed as 0: its product by 10 is 0.5 in \<open>float32\<close>.\<close>

lemma clean_1D_array_one_decimal:
  "clean_1D_array pr [Complex128 (5 / 100) 0] 1 = Inr ''[0]''"
proof -
  have "finite_parts 1 (Complex128 (5 / 100) 0)"
    unfolding finite_parts_def rounded_parts_one_decimal by simp
  then have fin: "list_all (finite_parts 1) [Complex128 (5 / 100) 0]" by simp
  show ?thesis
    unfolding clean_1D_array_finite [OF fin] list.map rendered_def rounded_parts_one_decimal
    by (simp add: rendered_element_def number_text_digit)
qed

text \<open>An element beyond the range of \<open>float32\<close> becomes infinite and line 101 raises.\<close>

lemma clean_1D_array_overflow:
  "clean_1D_array_default pr [Complex128 (10 ^ 39) 0] = Inl OverflowError"
proof -
  have "np_round Single (fst (to_complex64 (Complex128 (10 ^ 39) 0))) 7 = PosInf"
    unfolding to_complex64_def complex_scalar.sel cast.simps fst_conv float32_overflow
    by (rule np_round_infinite)
  then show ?thesis
    unfolding clean_1D_array_default_def clean_1D_array_def Let_def list.map
      clean_elements.simps clean_element_def
    by (simp add: collapse_int_def)
qed

lemma rounded_parts_decimals:
  assumes "to_complex64 z = (Finite x, Finite y)" and "rounded_parts 7 z = (Finite r, Finite i)"
  shows "(\<exists>m. Finite r = fp_round Single (of_int m / 10 ^ 7)
            \<and> \<bar>of_int m / 10 ^ 7 - x\<bar> \<le> 1 / (2 * 10 ^ 7) + \<bar>x\<bar> / 2 ^ 24 + 1 / (2 ^ 150 * 10 ^ 7))
       \<and> (\<exists>n. Finite i = fp_round Single (of_int n / 10 ^ 7)
            \<and> \<bar>of_int n / 10 ^ 7 - y\<bar> \<le> 1 / (2 * 10 ^ 7) + \<bar>y\<bar> / 2 ^ 24 + 1 / (2 ^ 150 * 10 ^ 7))"
proof -
  have "np_round Single (Finite x) 7 = Finite r" "np_round Single (Finite y) 7 = Finite i"
    using assms by (simp_all add: rounded_parts_def)
  then show ?thesis using np_round_7_decimals by blast
qed

text \<open>
  C9. Without the argument \<open>round\<close> the parts are rounded to 7 decimals: each part, converted
  to \<open>float32\<close>, becomes the \<open>float32\<close> nearest to a number \<open>m / 10^7\<close> that lies within half a
  unit of the seventh decimal of it, up to the precision of \<open>float32\<close>. When the rounded parts
  are finite the result is the bracketed, comma-separated list of the elements, each with a
  zero imaginary part left out, a zero real part left out beside a non-zero imaginary part,
  and integer parts printed without decimals. \<open>clean_1D_array([1.0, 2.0, 3.0])\<close> is
  \<open>"[1, 2, 3]"\<close>; \<open>[123456789]\<close> is printed as the \<open>float32\<close> it is converted to, and a part of
  \<open>4e-8\<close> rounds to 0.
\<close>

theorem clean_1D_array_format:
  "clean_1D_array_default pr array = clean_1D_array pr array 7
   \<and> (list_all (finite_parts d) array \<longrightarrow>
        clean_1D_array pr array d = Inr (''['' @ join '', '' (map (rendered pr d) array) @ '']''))
   \<and> (to_complex64 z = (Finite x, Finite y) \<and> rounded_parts 7 z = (Finite r, Finite i) \<longrightarrow>
        (\<exists>m. Finite r = fp_round Single (of_int m / 10 ^ 7)
            \<and> \<bar>of_int m / 10 ^ 7 - x\<bar> \<le> 1 / (2 * 10 ^ 7) + \<bar>x\<bar> / 2 ^ 24 + 1 / (2 ^ 150 * 10 ^ 7))
        \<and> (\<exists>n. Finite i = fp_round Single (of_int n / 10 ^ 7)
            \<and> \<bar>of_int n / 10 ^ 7 - y\<bar> \<le> 1 / (2 * 10 ^ 7) + \<bar>y\<bar> / 2 ^ 24 + 1 / (2 ^ 150 * 10 ^ 7)))
   \<and> clean_1D_array_default pr [Complex128 1 0, Complex128 2 0, Complex128 3 0] = Inr ''[1, 2, 3]''
   \<and> clean_1D_array_default pr [Complex128 123456789 0] = Inr ''[123456792]''
   \<and> clean_1D_array_default pr [Complex128 (4 / 10 ^ 8) 0] = Inr ''[0]''"
proof (intro conjI impI)
  show "clean_1D_array_default pr array = clean_1D_array pr array 7"
    by (simp add: clean_1D_array_default_def)
  show "clean_1D_array pr array d = Inr (''['' @ join '', '' (map (rendered pr d) array) @ '']'')"
    if "list_all (finite_parts d) array"
    using that by (rule clean_1D_array_finite)
  show "\<exists>m. Finite r = fp_round Single (of_int m / 10 ^ 7)
      \<and> \<bar>of_int m / 10 ^ 7 - x\<bar> \<le> 1 / (2 * 10 ^ 7) + \<bar>x\<bar> / 2 ^ 24 + 1 / (2 ^ 150 * 10 ^ 7)"
    if "to_complex64 z = (Finite x, Finite y) \<and> rounded_parts 7 z = (Finite r, Finite i)"
    using that rounded_parts_decimals by blast
  show "\<exists>n. Finite i = fp_round Single (of_int n / 10 ^ 7)
      \<and> \<bar>of_int n / 10 ^ 7 - y\<bar> \<le> 1 / (2 * 10 ^ 7) + \<bar>y\<bar> / 2 ^ 24 + 1 / (2 ^ 150 * 10 ^ 7)"
    if "to_complex64 z = (Finite x, Finite y) \<and> rounded_parts 7 z = (Finite r, Finite i)"
    using that rounded_parts_decimals by blast
  show "clean_1D_array_default pr [Complex128 1 0, Complex128 2 0, Complex128 3 0]
      = Inr ''[1, 2, 3]''"
    by (rule clean_1D_array_123)
  show "clean_1D_array_default pr [Complex128 123456789 0] = Inr ''[123456792]''"
    by (rule clean_1D_array_converted)
  show "clean_1D_array_default pr [Complex128 (4 / 10 ^ 8) 0] = Inr ''[0]''"
    by (rule clean_1D_array_tiny)
qed

theorem clean_1D_array_format_witness:
  "list_all (finite_parts 7) [Complex128 2 0, Complex128 0 0]
   \<and> clean_1D_array unused_printers [Complex128 2 0, Complex128 0 0] 7 = Inr ''[2, 0]''
   \<and> to_complex64 (Complex128 2 0) = (Finite 2, Finite 0)
   \<and> rounded_parts 7 (Complex128 2 0) = (Finite 2, Finite 0)
   \<and> (\<exists>m. Finite 2 = fp_round Single (of_int m / 10 ^ 7)
        \<and> \<bar>rat_of_int m / 10 ^ 7 - 2\<bar> \<le> 1 / (2 * 10 ^ 7) + \<bar>2\<bar> / 2 ^ 24 + 1 / (2 ^ 150 * 10 ^ 7))"
proof -
  have zero: "rounded_parts 7 (Complex128 0 0) = (Finite 0, Finite 0)"
    using rounded_parts_int [of 0] by simp
  have conv: "to_complex64 (Complex128 2 0) = (Finite 2, Finite 0)"
    using to_complex64_int [of 2] by simp
  have fin: "list_all (finite_parts 7) [Complex128 2 0, Complex128 0 0]"
    by (simp add: finite_parts_def rounded_parts_2 zero)
  note inst = clean_1D_array_format [of unused_printers "[Complex128 2 0, Complex128 0 0]" 7
      "Complex128 2 0" 2 0 2 0]
  have "clean_1D_array unused_printers [Complex128 2 0, Complex128 0 0] 7 = Inr ''[2, 0]''"
    using inst fin
    by (simp add: rendered_def rounded_parts_2 zero rendered_element_def number_text_digit)
  moreover have "\<exists>m. Finite 2 = fp_round Single (of_int m / 10 ^ 7)
      \<and> \<bar>rat_of_int m / 10 ^ 7 - 2\<bar> \<le> 1 / (2 * 10 ^ 7) + \<bar>2\<bar> / 2 ^ 24 + 1 / (2 ^ 150 * 10 ^ 7)"
    using inst conv rounded_parts_2 by simp
  ultimately show ?thesis using fin conv rounded_parts_2 by blast
qed

section \<open>Properties of random\_circuit\<close>

lemma draw_zero_rng: "draw zero_rng = (0, zero_rng)"
  by (simp add: draw_def zero_rng_def)

lemma rng_choice_some:
  "xs \<noteq> [] \<Longrightarrow> \<exists>x. x \<in> set xs \<and> rng_choice xs g = (Inr x, snd (draw g))"
  by (simp add: rng_choice_def)

lemma other_qubit: "2 \<le> n \<Longrightarrow> filter (\<lambda>q. q \<noteq> t) [0..<n] \<noteq> []"
proof -
  assume n: "2 \<le> n"
  have "(0::nat) \<noteq> t \<or> (1::nat) \<noteq> t" by arith
  then have "\<exists>q\<in>set [0..<n]. q \<noteq> t" using n by auto
  then show ?thesis by (simp add: filter_empty_conv)
qed

lemma third_qubit: "3 \<le> n \<Longrightarrow> filter (\<lambda>q. q \<noteq> t \<and> q \<noteq> c) [0..<n] \<noteq> []"
proof -
  assume n: "3 \<le> n"
  have "((0::nat) \<noteq> t \<and> 0 \<noteq> c) \<or> ((1::nat) \<noteq> t \<and> 1 \<noteq> c) \<or> ((2::nat) \<noteq> t \<and> 2 \<noteq> c)"
    by arith
  then have "\<exists>q\<in>set [0..<n]. q \<noteq> t \<and> q \<noteq> c" using n by auto
  then show ?thesis by (simp add: filter_empty_conv)
qed

lemma add_random_gate_ok:
  assumes ne: "gcs \<noteq> []" and gen: "list_all (\<lambda>c. generable c n) gcs"
  shows "\<exists>gate g'. add_random_gate gcs [0..<n] qc g = (Inr (add qc gate), g') \<and> gate_within n gate"
proof -
  obtain c where c: "c \<in> set gcs" "rng_choice gcs g = (Inr c, snd (draw g))"
    using rng_choice_some [OF ne] by blast
  then have gc: "generable c n" using gen by (simp add: list_all_iff)
  then have n1: "1 \<le> n" by (auto simp: generable_def split: if_splits)
  then have "[0..<n] \<noteq> []" by simp
  then obtain t where t: "t \<in> set [0..<n]"
      "rng_choice [0..<n] (snd (draw g)) = (Inr t, snd (draw (snd (draw g))))"
    using rng_choice_some by blast
  then have tn: "t < n" by simp
  show ?thesis
  proof (cases "is_single_qubit c")
    case True
    then show ?thesis
      using gc c(2) t(2) tn
      by (auto simp: add_random_gate_def generable_def gate_within_def rng_uniform_def
          rng_integers_def)
  next
    case False
    then have n2: "2 \<le> n" and np: "\<not> is_parametrized c" using gc by (auto simp: generable_def)
    obtain c1 where c1: "c1 \<in> set (filter (\<lambda>q. q \<noteq> t) [0..<n])"
        "rng_choice (filter (\<lambda>q. q \<noteq> t) [0..<n]) (snd (draw (snd (draw g))))
           = (Inr c1, snd (draw (snd (draw (snd (draw g))))))"
      using rng_choice_some [OF other_qubit [OF n2]] by blast
    then have c1n: "c1 < n" "c1 \<noteq> t" by auto
    show ?thesis
    proof (cases "is_TOF c")
      case tof: True
      then have n3: "3 \<le> n" using gc False by (auto simp: generable_def)
      obtain c2 where c2: "c2 \<in> set (filter (\<lambda>q. q \<noteq> t \<and> q \<noteq> c1) [0..<n])"
          "rng_choice (filter (\<lambda>q. q \<noteq> t \<and> q \<noteq> c1) [0..<n])
             (snd (draw (snd (draw (snd (draw g))))))
             = (Inr c2, snd (draw (snd (draw (snd (draw (snd (draw g))))))))"
        using rng_choice_some [OF third_qubit [OF n3]] by blast
      then have c2n: "c2 < n" "c2 \<noteq> t" by auto
      have "add_random_gate gcs [0..<n] qc g =
          (Inr (add qc \<lparr>gate_cls = TOF, params = [], controls = [c1, c2], targets = [t]\<rparr>),
           snd (draw (snd (draw (snd (draw (snd (draw g))))))))"
        using False np tof c(2) t(2) c1(2) c2(2) by (simp add: add_random_gate_def)
      moreover have "gate_within n
          \<lparr>gate_cls = TOF, params = [], controls = [c1, c2], targets = [t]\<rparr>"
        using tn c1n c2n by (simp add: gate_within_def)
      ultimately show ?thesis by blast
    next
      case notof: False
      have "add_random_gate gcs [0..<n] qc g =
          (Inr (add qc \<lparr>gate_cls = c, params = [], controls = [c1], targets = [t]\<rparr>),
           snd (draw (snd (draw (snd (draw g))))))"
        using False np notof c(2) t(2) c1(2) by (simp add: add_random_gate_def)
      moreover have "gate_within n
          \<lparr>gate_cls = c, params = [], controls = [c1], targets = [t]\<rparr>"
        using tn c1n by (simp add: gate_within_def)
      ultimately show ?thesis by blast
    qed
  qed
qed

lemma generate_ok:
  assumes ne: "gcs \<noteq> []" and gen: "list_all (\<lambda>c. generable c n) gcs"
  shows "\<exists>gs g'. generate k gcs [0..<n] qc g =
            (Inr (qc\<lparr>instructions := instructions qc @ map GateInstr gs\<rparr>), g')
          \<and> length gs = k \<and> list_all (gate_within n) gs"
proof (induction k arbitrary: qc g)
  case 0
  then show ?case by simp
next
  case (Suc k)
  obtain gate g1 where a: "add_random_gate gcs [0..<n] qc g = (Inr (add qc gate), g1)"
      "gate_within n gate"
    using add_random_gate_ok [OF ne gen] by blast
  obtain gs g2 where b: "generate k gcs [0..<n] (add qc gate) g1 =
      (Inr ((add qc gate)\<lparr>instructions := instructions (add qc gate) @ map GateInstr gs\<rparr>), g2)"
      "length gs = k" "list_all (gate_within n) gs"
    using Suc.IH by blast
  have "generate (Suc k) gcs [0..<n] qc g =
      (Inr (qc\<lparr>instructions := instructions qc @ map GateInstr (gate # gs)\<rparr>), g2)"
    using a(1) b(1) by (simp add: add_def)
  moreover have "length (gate # gs) = Suc k" using b(2) by simp
  moreover have "list_all (gate_within n) (gate # gs)" using a(2) b(3) by simp
  ultimately show ?case by blast
qed

lemma generable_not_too_low: "generable c n \<Longrightarrow> \<not> qubits_too_low c n"
  by (auto simp: generable_def qubits_too_low_def TOF_def split: if_splits)

text \<open>
  On classes that are all generable the call returns a circuit of exactly \<open>nb_gates\<close> gates,
  each within the circuit and with controls apart from its target.
\<close>

lemma random_circuit_generable:
  assumes ne: "gcs \<noteq> []" and gen: "list_all (\<lambda>c. generable c n) gcs"
  shows "\<exists>gs g'. random_circuit NATIVE_GATES (Some gcs) n (Some k) g =
            (Inr \<lparr>nb_qubits = n, instructions = map GateInstr gs\<rparr>, g')
          \<and> length gs = nat k \<and> list_all (gate_within n) gs"
proof -
  have "\<not> list_ex (\<lambda>gate. qubits_too_low gate n) gcs"
    using gen generable_not_too_low by (auto simp: list_ex_iff list_all_iff)
  then have "random_circuit NATIVE_GATES (Some gcs) n (Some k) g =
      generate (nat k) gcs [0..<n] \<lparr>nb_qubits = n, instructions = []\<rparr> g"
    by (simp add: random_circuit_def)
  then show ?thesis
    using generate_ok [OF ne gen, of "nat k" "\<lparr>nb_qubits = n, instructions = []\<rparr>" g]
    by simp
qed

text \<open>
  C1. \<open>Rx\<close> is a single-qubit class, so \<open>([Rx], 1)\<close> is a valid pair, and the docstring shows
  circuits with \<open>Rz\<close>, \<open>Ry\<close> and \<open>P\<close> gates. The call draws the class and the target, reaches
  line 131 and raises \<open>NameError\<close>: no circuit is returned.
\<close>

theorem random_circuit_rotation_raises:
  "random_circuit NATIVE_GATES (Some [Rx]) 1 (Some 1) rng =
     (Inl (NameError ''TYPE_CHECKING''), snd (draw (snd (draw rng))))"
  by (simp add: random_circuit_def qubits_too_low_def Rx_def add_random_gate_def rng_choice_def)

text \<open>
  C3. When the gate classes hold a class that is not single-qubit and \<open>nb_qubits \<le> 1\<close>, or
  hold \<open>TOF\<close> and \<open>nb_qubits \<le> 2\<close>, the call raises the \<open>ValueError\<close> of line 112. No gate
  has been drawn: the generator is as it was, but for the one draw of \<open>nb_gates\<close> when that
  argument is \<open>None\<close>.
\<close>

theorem random_circuit_qubits_too_low:
  assumes "g \<in> set (case gate_classes of None \<Rightarrow> NATIVE_GATES | Some cs \<Rightarrow> cs)"
    and "(\<not> is_single_qubit g \<and> nbq \<le> 1) \<or> (g = TOF \<and> nbq \<le> 2)"
  shows "random_circuit NATIVE_GATES gate_classes nbq nb_gates rng =
           (Inl (ValueError QubitsTooLow),
            case nb_gates of None \<Rightarrow> snd (draw rng) | Some k \<Rightarrow> rng)"
proof -
  have "qubits_too_low g nbq"
    using assms(2) by (auto simp: qubits_too_low_def TOF_def)
  then have "list_ex (\<lambda>gate. qubits_too_low gate nbq)
      (case gate_classes of None \<Rightarrow> NATIVE_GATES | Some cs \<Rightarrow> cs)"
    using assms(1) by (auto simp: list_ex_iff)
  then show ?thesis
    by (cases nb_gates) (simp_all add: random_circuit_def rng_integers_def Let_def)
qed

theorem random_circuit_qubits_too_low_witness:
  "random_circuit [] (Some [CNOT, TOF]) 2 (Some 3) zero_rng =
     (Inl (ValueError QubitsTooLow), zero_rng)"
  using random_circuit_qubits_too_low [where g = TOF and gate_classes = "Some [CNOT, TOF]"
      and NATIVE_GATES = "[]" and nbq = 2 and nb_gates = "Some 3" and rng = zero_rng]
  by simp

section \<open>Properties of compute\_expected\_matrix\<close>

subsection \<open>Shapes\<close>

lemma mat_ok_eye: "mat_ok n n (eye n)"
  by (simp add: mat_ok_def eye_def list_all_iff)

lemma length_kron_row: "length (kron_row arow brow) = length arow * length brow"
  by (induction arow) simp_all

lemma mat_ok_kron:
  "mat_ok ra ca A \<Longrightarrow> mat_ok rb cb B \<Longrightarrow> mat_ok (ra * rb) (ca * cb) (kron A B)"
proof (induction A arbitrary: ra)
  case Nil
  then show ?case by (simp add: mat_ok_def)
next
  case (Cons arow A)
  then obtain ra' where ra: "ra = Suc ra'" "mat_ok ra' ca A" "length arow = ca"
    by (cases ra) (auto simp: mat_ok_def)
  have "mat_ok (ra' * rb) (ca * cb) (kron A B)" using Cons.IH [OF ra(2) Cons.prems(2)] .
  then show ?case
    using ra Cons.prems(2) by (auto simp: mat_ok_def list_all_iff length_kron_row)
qed

lemma ncols_mat_ok: "mat_ok r c A \<Longrightarrow> 0 < r \<Longrightarrow> ncols A = c"
  by (cases A) (auto simp: mat_ok_def ncols_def)

lemma mat_ok_matmul:
  "mat_ok r k A \<Longrightarrow> mat_ok k c B \<Longrightarrow> 0 < k \<Longrightarrow> mat_ok r c (matmul A B)"
  using ncols_mat_ok [of k c B]
  by (simp add: mat_ok_def matmul_def list_all_iff)

lemma dot_mat_ok:
  "mat_ok r k A \<Longrightarrow> mat_ok k c B \<Longrightarrow> 0 < r \<Longrightarrow> dot A B = Inr (matmul A B)"
  using ncols_mat_ok [of r k A]
  by (simp add: dot_def mat_ok_def)

lemma mat_ok_expand:
  assumes "index < n" and "mat_ok 2 2 (to_matrix gate)"
  shows "mat_ok (2 ^ n) (2 ^ n) (expand to_matrix n gate index)"
proof -
  have "mat_ok (2 ^ index * (2 * 2 ^ (n - index - 1))) (2 ^ index * (2 * 2 ^ (n - index - 1)))
      (expand to_matrix n gate index)"
    unfolding expand_def by (intro mat_ok_kron mat_ok_eye assms(2))
  moreover have "(2::nat) ^ index * (2 * 2 ^ (n - index - 1)) = 2 ^ n"
  proof -
    have "n = index + Suc (n - index - 1)" using assms(1) by simp
    then have "(2::nat) ^ n = 2 ^ (index + Suc (n - index - 1))" by simp
    then show ?thesis by (simp only: power_add power_Suc)
  qed
  ultimately show ?thesis by simp
qed

lemma apply_gates_result:
  assumes "list_all (gate_ok to_matrix n) gs" and "mat_ok (2 ^ n) (2 ^ n) R"
  shows "apply_gates to_matrix n gs R =
           (if list_ex (\<lambda>g. \<not> is_single_qubit (gate_cls g)) gs
            then Inl (ValueError UnsupportedGate)
            else Inr (foldl (step to_matrix n) R gs))
         \<and> mat_ok (2 ^ n) (2 ^ n) (foldl (step to_matrix n) R
               (takeWhile (\<lambda>g. is_single_qubit (gate_cls g)) gs))"
  using assms
proof (induction gs arbitrary: R)
  case Nil
  then show ?case by simp
next
  case (Cons g gs)
  show ?case
  proof (cases "is_single_qubit (gate_cls g)")
    case False
    then show ?thesis using Cons.prems(2) by simp
  next
    case True
    then obtain index rest where t: "targets g = index # rest" "index < n"
        and m: "mat_ok 2 2 (to_matrix g)"
      using Cons.prems(1) by (auto simp: gate_ok_def split: list.splits)
    have e: "mat_ok (2 ^ n) (2 ^ n) (expand to_matrix n g index)"
      using t(2) m by (rule mat_ok_expand)
    have d: "dot R (expand to_matrix n g index) = Inr (step to_matrix n R g)"
      using dot_mat_ok [OF Cons.prems(2) e] t(1) by (simp add: step_def)
    have r: "mat_ok (2 ^ n) (2 ^ n) (step to_matrix n R g)"
      using mat_ok_matmul [OF Cons.prems(2) e] t(1) by (simp add: step_def)
    have "list_all (gate_ok to_matrix n) gs" using Cons.prems(1) by simp
    from Cons.IH [OF this r] show ?thesis
      using True t d by simp
  qed
qed

lemma reverse_product_foldl:
  "reverse_product to_matrix n gs = foldl (step to_matrix n) (eye (2 ^ n)) (rev gs)"
  by (induction gs) (simp_all add: step_def)

lemma gates_of_append: "gates_of (xs @ ys) = gates_of xs @ gates_of ys"
  by (induction xs rule: gates_of.induct) simp_all

lemma gates_of_GateInstr: "gates_of (map GateInstr gs) = gs"
  by (induction gs) simp_all

lemma gates_of_NonGate: "gates_of (map NonGate names) = []"
  by (induction names) simp_all

subsection \<open>The computed matrix\<close>

text \<open>
  C2. On a circuit that \<open>QCircuit\<close> admits and whose gates are all single-qubit gates, the call
  returns the product, in reverse instruction order, of the gates' matrices expanded as
  \<open>I\<^bsub>2^t\<^esub> \<otimes> G \<otimes> I\<^bsub>2^(n-t-1)\<^esub>\<close>, and that matrix has \<open>2^n\<close> rows of \<open>2^n\<close> entries.
\<close>

theorem compute_expected_matrix_single_qubit:
  assumes "circuit_ok to_matrix qc"
    and "list_all (\<lambda>g. is_single_qubit (gate_cls g)) (gates_of (instructions qc))"
  shows "compute_expected_matrix to_matrix qc =
           Inr (reverse_product to_matrix (nb_qubits qc) (gates_of (instructions qc)))
         \<and> mat_ok (2 ^ nb_qubits qc) (2 ^ nb_qubits qc)
             (reverse_product to_matrix (nb_qubits qc) (gates_of (instructions qc)))"
proof -
  let ?gs = "gates_of (instructions qc)" and ?n = "nb_qubits qc"
  have ok: "list_all (gate_ok to_matrix ?n) (rev ?gs)"
    using assms(1) by (simp add: circuit_ok_def list_all_iff)
  have single: "\<not> list_ex (\<lambda>g. \<not> is_single_qubit (gate_cls g)) (rev ?gs)"
    using assms(2) by (simp add: list_all_iff list_ex_iff)
  have tw: "takeWhile (\<lambda>g. is_single_qubit (gate_cls g)) (rev ?gs) = rev ?gs"
    using assms(2) by (simp add: list_all_iff)
  show ?thesis
    using apply_gates_result [OF ok mat_ok_eye] single tw
    by (simp add: compute_expected_matrix_def reverse_product_foldl Let_def)
qed

theorem compute_expected_matrix_single_qubit_witness:
  "circuit_ok xz_matrix two_qubit_circuit
   \<and> list_all (\<lambda>g. is_single_qubit (gate_cls g)) (gates_of (instructions two_qubit_circuit))
   \<and> compute_expected_matrix xz_matrix two_qubit_circuit
       = Inr [[0, 0, 0, 1], [0, 0, 1, 0], [0, - 1, 0, 0], [- 1, 0, 0, 0]]"
proof -
  have ne: "Rx \<noteq> Rk" by (simp add: Rx_def Rk_def)
  have ok: "circuit_ok xz_matrix two_qubit_circuit"
    by (simp add: circuit_ok_def gate_ok_def two_qubit_circuit_def rx_on_0_def rk_on_0_def
        rx_on_1_def xz_matrix_def mat_ok_def)
  have single: "list_all (\<lambda>g. is_single_qubit (gate_cls g))
      (gates_of (instructions two_qubit_circuit))"
    by (simp add: two_qubit_circuit_def rx_on_0_def rk_on_0_def rx_on_1_def Rx_def Rk_def)
  have u2: "[0..<2] = [0, Suc 0]" by (simp add: upt_rec)
  have u4: "[0..<4] = [0, Suc 0, 2, 3]" by (simp add: upt_rec)
  have e0: "expand xz_matrix 2 rx_on_0 (hd (targets rx_on_0))
      = [[0, 0, 1, 0], [0, 0, 0, 1], [1, 0, 0, 0], [0, 1, 0, 0]]"
    by (simp add: expand_def eye_def xz_matrix_def rx_on_0_def ne u2)
  have e1: "expand xz_matrix 2 rk_on_0 (hd (targets rk_on_0))
      = [[1, 0, 0, 0], [0, 1, 0, 0], [0, 0, - 1, 0], [0, 0, 0, - 1]]"
    by (simp add: expand_def eye_def xz_matrix_def rk_on_0_def u2)
  have e2: "expand xz_matrix 2 rx_on_1 (hd (targets rx_on_1))
      = [[0, 1, 0, 0], [1, 0, 0, 0], [0, 0, 0, 1], [0, 0, 1, 0]]"
    by (simp add: expand_def eye_def xz_matrix_def rx_on_1_def ne u2)
  have m2: "matmul (eye (2 ^ 2)) [[0, 1, 0, 0], [1, 0, 0, 0], [0, 0, 0, 1], [0, 0, 1, 0]]
      = [[0, 1, 0, 0], [1, 0, 0, 0], [0, 0, 0, 1], [0, 0, 1, 0]]"
    by (simp add: eye_def matmul_def ncols_def column_def u4)
  have m1: "matmul [[0, 1, 0, 0], [1, 0, 0, 0], [0, 0, 0, 1], [0, 0, 1, 0]]
      [[1, 0, 0, 0], [0, 1, 0, 0], [0, 0, - 1, 0], [0, 0, 0, - 1]]
      = [[0, 1, 0, 0], [1, 0, 0, 0], [0, 0, 0, - 1], [0, 0, - 1, 0]]"
    by (simp add: matmul_def ncols_def column_def u4)
  have m0: "matmul [[0, 1, 0, 0], [1, 0, 0, 0], [0, 0, 0, - 1], [0, 0, - 1, 0]]
      [[0, 0, 1, 0], [0, 0, 0, 1], [1, 0, 0, 0], [0, 1, 0, 0]]
      = [[0, 0, 0, 1], [0, 0, 1, 0], [0, - 1, 0, 0], [- 1, 0, 0, 0]]"
    by (simp add: matmul_def ncols_def column_def u4)
  have g: "gates_of (instructions two_qubit_circuit) = [rx_on_0, rk_on_0, rx_on_1]"
    by (simp add: two_qubit_circuit_def)
  have v: "reverse_product xz_matrix 2 [rx_on_0, rk_on_0, rx_on_1]
      = [[0, 0, 0, 1], [0, 0, 1, 0], [0, - 1, 0, 0], [- 1, 0, 0, 0]]"
    unfolding reverse_product.simps e0 e1 e2 m2 m1 m0 ..
  have n: "nb_qubits two_qubit_circuit = 2" by (simp add: two_qubit_circuit_def)
  have "compute_expected_matrix xz_matrix two_qubit_circuit
      = Inr [[0, 0, 0, 1], [0, 0, 1, 0], [0, - 1, 0, 0], [- 1, 0, 0, 0]]"
    using compute_expected_matrix_single_qubit [OF ok single] unfolding g n v by simp
  then show ?thesis using ok single by simp
qed

text \<open>
  C4. On a circuit that \<open>QCircuit\<close> admits, the call raises the \<open>ValueError\<close> of line 182 when
  some gate is not a single-qubit gate, and returns a matrix when every gate is one.
\<close>

theorem compute_expected_matrix_raises:
  assumes "circuit_ok to_matrix qc"
  shows "compute_expected_matrix to_matrix qc =
           (if list_ex (\<lambda>g. \<not> is_single_qubit (gate_cls g)) (gates_of (instructions qc))
            then Inl (ValueError UnsupportedGate)
            else Inr (reverse_product to_matrix (nb_qubits qc) (gates_of (instructions qc))))"
proof -
  let ?gs = "gates_of (instructions qc)" and ?n = "nb_qubits qc"
  have ok: "list_all (gate_ok to_matrix ?n) (rev ?gs)"
    using assms(1) by (simp add: circuit_ok_def list_all_iff)
  have ex: "list_ex (\<lambda>g. \<not> is_single_qubit (gate_cls g)) (rev ?gs) =
      list_ex (\<lambda>g. \<not> is_single_qubit (gate_cls g)) ?gs"
    by (simp add: list_ex_iff)
  show ?thesis
    using apply_gates_result [OF ok mat_ok_eye] ex
    by (simp add: compute_expected_matrix_def reverse_product_foldl Let_def)
qed

theorem compute_expected_matrix_raises_witness:
  "compute_expected_matrix x_matrix
     \<lparr>nb_qubits = 2, instructions = [GateInstr rx_on_0, GateInstr cnot_0_1]\<rparr>
     = Inl (ValueError UnsupportedGate)"
proof -
  have ok: "circuit_ok x_matrix
      \<lparr>nb_qubits = 2, instructions = [GateInstr rx_on_0, GateInstr cnot_0_1]\<rparr>"
    by (simp add: circuit_ok_def gate_ok_def rx_on_0_def cnot_0_1_def CNOT_def x_matrix_def
        mat_ok_def)
  show ?thesis using compute_expected_matrix_raises [OF ok] by (simp add: cnot_0_1_def CNOT_def)
qed

text \<open>
  C10. Only the gates count: dropping every instruction that is not a gate, or one such
  instruction anywhere, leaves the result as it is, and a circuit over \<open>n\<close> qubits without
  gates gives \<open>np.eye(2 ** n)\<close>, which has \<open>2^n\<close> rows of \<open>2^n\<close> entries.
\<close>

theorem compute_expected_matrix_ignores_non_gates:
  "compute_expected_matrix to_matrix (qc\<lparr>instructions := map GateInstr (gates_of (instructions qc))\<rparr>)
     = compute_expected_matrix to_matrix qc
   \<and> compute_expected_matrix to_matrix (qc\<lparr>instructions := xs @ NonGate s # ys\<rparr>)
     = compute_expected_matrix to_matrix (qc\<lparr>instructions := xs @ ys\<rparr>)
   \<and> compute_expected_matrix to_matrix \<lparr>nb_qubits = n, instructions = map NonGate names\<rparr>
     = Inr (eye (2 ^ n))
   \<and> mat_ok (2 ^ n) (2 ^ n) (eye (2 ^ n))"
  by (simp add: compute_expected_matrix_def gates_of_GateInstr gates_of_append gates_of_NonGate
      mat_ok_eye)

section \<open>Properties of replace\_custom\_gate\<close>

text \<open>
  C5. When the first transpilation raises a \<open>QiskitError\<close> whose text contains
  \<open>TwoQubitWeylDecomposition\<close>, the first parameter of the operation is replaced by its
  closest unitary and the circuit is transpiled once more: the call returns or raises what
  that second transpilation returns or raises, after two calls. Any other failure of the
  first transpilation is raised as it is, after one call and with the heap untouched. When the
  first transpilation succeeds, its circuit is returned with its global phase.
\<close>

theorem replace_custom_gate_recovery:
  assumes tc: "tc = append_instruction (new_QuantumCircuit nbq) cu"
    and r: "r = replace_custom_gate transpile closest_unitary h cu nbq"
  shows "(\<forall>e p ps. transpile h tc = Inl (QiskitError e)
            \<and> contains e ''TwoQubitWeylDecomposition'' \<and> h (operation cu) = p # ps \<longrightarrow>
            returned r =
              (case transpile (h(operation cu := closest_unitary p # ps)) tc of
                 Inl e' \<Rightarrow> Inl e' | Inr t \<Rightarrow> Inr (t, global_phase t))
            \<and> final_heap r = h(operation cu := closest_unitary p # ps)
            \<and> transpile_calls r = 2)
       \<and> (\<forall>err. transpile h tc = Inl err
            \<and> (\<forall>e. err = QiskitError e \<longrightarrow> \<not> contains e ''TwoQubitWeylDecomposition'') \<longrightarrow>
            returned r = Inl err \<and> final_heap r = h \<and> transpile_calls r = 1)
       \<and> (\<forall>t. transpile h tc = Inr t \<longrightarrow>
            returned r = Inr (t, global_phase t) \<and> final_heap r = h \<and> transpile_calls r = 1)"
proof (intro conjI allI impI)
  fix e p ps
  assume a: "transpile h tc = Inl (QiskitError e)
      \<and> contains e ''TwoQubitWeylDecomposition'' \<and> h (operation cu) = p # ps"
  then have b: "transpile h (append_instruction (new_QuantumCircuit nbq) cu) = Inl (QiskitError e)"
    using tc by simp
  let ?h = "h(operation cu := closest_unitary p # ps)"
  have "r = (case transpile ?h tc of
      Inr transpiled \<Rightarrow> \<lparr>returned = Inr (transpiled, global_phase transpiled),
         final_heap = ?h, transpile_calls = 2\<rparr>
    | Inl e' \<Rightarrow> \<lparr>returned = Inl e', final_heap = ?h, transpile_calls = 2\<rparr>)"
    using a b unfolding r replace_custom_gate_def Let_def tc by simp
  then show "returned r = (case transpile ?h tc of
      Inl e' \<Rightarrow> Inl e' | Inr t \<Rightarrow> Inr (t, global_phase t))"
    and "final_heap r = ?h" and "transpile_calls r = 2"
    by (simp_all split: sum.splits)
next
  fix err
  assume a: "transpile h tc = Inl err
      \<and> (\<forall>e. err = QiskitError e \<longrightarrow> \<not> contains e ''TwoQubitWeylDecomposition'')"
  then have "r = \<lparr>returned = Inl err, final_heap = h, transpile_calls = 1\<rparr>"
    unfolding r replace_custom_gate_def Let_def tc by (cases err) simp_all
  then show "returned r = Inl err" and "final_heap r = h" and "transpile_calls r = 1"
    by simp_all
next
  fix t
  assume "transpile h tc = Inr t"
  then have "r = \<lparr>returned = Inr (t, global_phase t), final_heap = h, transpile_calls = 1\<rparr>"
    unfolding r replace_custom_gate_def Let_def tc by simp
  then show "returned r = Inr (t, global_phase t)" and "final_heap r = h"
    and "transpile_calls r = 1"
    by simp_all
qed

theorem replace_custom_gate_recovery_witness:
  "returned (replace_custom_gate stub_transpile stub_closest_unitary stub_heap stub_instruction 1)
     = Inr (append_instruction (new_QuantumCircuit 1) stub_instruction, 0)
   \<and> transpile_calls
       (replace_custom_gate stub_transpile stub_closest_unitary stub_heap stub_instruction 1) = 2"
proof -
  let ?tc = "append_instruction (new_QuantumCircuit 1) stub_instruction"
  let ?r = "replace_custom_gate stub_transpile stub_closest_unitary stub_heap stub_instruction 1"
  have first: "stub_transpile stub_heap ?tc = Inl (QiskitError ''TwoQubitWeylDecomposition failed'')
      \<and> contains ''TwoQubitWeylDecomposition failed'' ''TwoQubitWeylDecomposition''
      \<and> stub_heap (operation stub_instruction) = [[2]] # []"
    by (simp add: stub_transpile_def stub_heap_def append_instruction_def new_QuantumCircuit_def
        stub_instruction_def startswith_def)
  have retry: "stub_transpile (stub_heap(operation stub_instruction := stub_closest_unitary [[2]] # []))
      ?tc = Inr ?tc"
    by (simp add: stub_transpile_def stub_heap_def append_instruction_def new_QuantumCircuit_def
        stub_instruction_def stub_closest_unitary_def)
  have phase: "global_phase ?tc = 0"
    by (simp add: append_instruction_def new_QuantumCircuit_def)
  from replace_custom_gate_recovery [OF refl refl, of stub_transpile stub_heap 1 stub_instruction stub_closest_unitary]
  have "returned ?r =
      (case stub_transpile (stub_heap(operation stub_instruction := stub_closest_unitary [[2]] # [])) ?tc of
         Inl e' \<Rightarrow> Inl e' | Inr t \<Rightarrow> Inr (t, global_phase t))
    \<and> transpile_calls ?r = 2"
    using first by blast
  then show ?thesis using retry phase by simp
qed

end
